theory Spec2Isabelle
  imports Main
begin

section \<open>Python values, errors and strings\<close>

text \<open>
  The exceptions the scraper can raise.  The first three are the classes scraper.py
  declares itself (\<open>InvalidRematcher\<close> has no instance of its own in the program);
  the others are the built-in exceptions its statements raise: \<open>AttributeError\<close> for
  \<open>None.group(...)\<close>, \<open>TypeError\<close> for a \<open>None\<close> operand of \<open>+\<close> or of
  a pattern substitution, \<open>IndexError\<close> for \<open>xs[-1]\<close> on an empty list and
  \<open>OSError\<close> for a file or directory that cannot be opened.
\<close>

datatype error =
    InvalidFunctionRematcher
  | InvalidAttributeRematcher
  | UpdatedDocError
  | AttributeError
  | TypeError
  | IndexError
  | OSError

text \<open>A Python value that is a \<open>str\<close> or \<open>None\<close>.\<close>

type_synonym pystr = "string option"

text \<open>\<open>os.path.basename\<close> (posixpath): what follows the last slash.\<close>

definition basename :: "string \<Rightarrow> string" where
  "basename p = rev (takeWhile (\<lambda>c. c \<noteq> CHR ''/'') (rev p))"

text \<open>
  \<open>os.path.join\<close> of two components (posixpath): an absolute second component
  replaces the first; a slash is inserted unless the first is empty or ends with one.
\<close>

definition join :: "string \<Rightarrow> string \<Rightarrow> string" where
  "join a b =
     (if b \<noteq> [] \<and> hd b = CHR ''/'' then b
      else if a = [] \<or> last a = CHR ''/'' then a @ b
      else a @ ''/'' @ b)"

text \<open>
  The lines a text file yields when iterated or read with \<open>readline\<close>: each line
  keeps its terminating newline, the last one may lack it, and no line is empty.  File
  contents are the text as Python hands it over (decoded, newlines translated).
\<close>

fun file_lines :: "string \<Rightarrow> string list" where
  "file_lines [] = []"
| "file_lines (c # cs) =
     (if c = CHR 0x0A then [c] # file_lines cs
      else (case file_lines cs of [] \<Rightarrow> [[c]] | l # ls \<Rightarrow> (c # l) # ls))"

text \<open>\<open>str.split(', ')\<close>: cut at every occurrence of the separator, left to right.\<close>

fun split_comma :: "string \<Rightarrow> string list" where
  "split_comma [] = [[]]"
| "split_comma [c] = [[c]]"
| "split_comma (c # d # cs) =
     (if c = CHR '','' \<and> d = CHR '' '' then [] # split_comma cs
      else (case split_comma (d # cs) of [] \<Rightarrow> [[c]] | r # rs \<Rightarrow> (c # r) # rs))"

text \<open>
  \<open>str.strip()\<close>: the white space of \<open>str.isspace\<close> in the ASCII range (tab to
  carriage return, the four separators 0x1C to 0x1F, and the space) is removed at both
  ends.
\<close>

definition isspace :: "char \<Rightarrow> bool" where
  "isspace c = (let n = of_char c :: nat in (9 \<le> n \<and> n \<le> 13) \<or> (28 \<le> n \<and> n \<le> 32))"

definition strip :: "string \<Rightarrow> string" where
  "strip s = rev (dropWhile isspace (rev (dropWhile isspace s)))"

section \<open>The pattern library\<close>

text \<open>
  scraper.py takes its regular expressions from the module \<open>scraper_regexs\<close>
  (\<open>from scraper_regexs import *\<close>), which is not among the sources.  The patterns
  are therefore a parameter of every builder.  A match object is the map from the group
  names the code asks for to the captured text, \<open>None\<close> for a group that took no
  part in the match (the group \<open>1\<close> is the key \<open>''1''\<close>); a pattern's \<open>search\<close>
  is a function from the searched text to an optional match.  \<open>RE_HTML_REPLACER\<close>
  is only used through \<open>sub('', s)\<close> and is that function; \<open>subHtmlFlags\<close> is
  a function of the same module.
\<close>

type_synonym rematch = "string \<Rightarrow> pystr"

record patterns =
  RE_FUNCTION_SIGNATURE :: "string \<Rightarrow> rematch option"
  RE_FUNCTION_PARAMETER :: "string \<Rightarrow> rematch option"
  RE_FUNCTION_RETURNS :: "string \<Rightarrow> rematch option"
  RE_ATTRIBUTE :: "string \<Rightarrow> rematch option"
  RE_ATTRIBUTE_TYPE :: "string \<Rightarrow> rematch option"
  RE_CLASS_NAME :: "string \<Rightarrow> rematch option"
  RE_INHERITS_FROM :: "string \<Rightarrow> rematch option"
  RE_NAMESPACE_NAME :: "string \<Rightarrow> rematch option"
  RE_ENUM_NAME :: "string \<Rightarrow> rematch option"
  RE_ENUM_MEMBER :: "string \<Rightarrow> rematch option"
  RE_DESCRIPTION :: "string \<Rightarrow> rematch option"
  RE_HTML_REPLACER :: "string \<Rightarrow> string"
  subHtmlFlags :: "string \<Rightarrow> string"

text \<open>
  \<open>tryMatch\<close> is only called on a match object (never on \<open>None\<close>); a group the
  pattern does not have raises \<open>IndexError\<close> there, which \<open>tryMatch\<close> answers
  with \<open>False\<close> exactly as it answers a group that took no part.
\<close>

definition tryMatch :: "rematch \<Rightarrow> string \<Rightarrow> bool" where
  "tryMatch x prop = (x prop \<noteq> None)"

definition tryMatchNone :: "rematch option \<Rightarrow> string \<Rightarrow> pystr" where
  "tryMatchNone x prop = (case x of None \<Rightarrow> None | Some m \<Rightarrow> m prop)"

definition tryMatchString :: "rematch option \<Rightarrow> string \<Rightarrow> string" where
  "tryMatchString x prop =
     (case x of None \<Rightarrow> [] | Some m \<Rightarrow> (case m prop of None \<Rightarrow> [] | Some ret \<Rightarrow> ret))"

section \<open>Value objects\<close>

subsection \<open>DocDescription\<close>

record DocDescription =
  description :: string
  link :: pystr

definition DocDescription_init :: "string \<Rightarrow> pystr \<Rightarrow> DocDescription" where
  "DocDescription_init descr docLink =
     \<lparr> description = descr,
       link = (case docLink of
                 None \<Rightarrow> None
               | Some p \<Rightarrow> if p = [] then None
                          else Some (''https://moddingofisaac.com/docs/'' @ basename p)) \<rparr>"

subsection \<open>LuaType\<close>

record LuaType =
  type_name :: pystr
  isConst :: bool
  isStatic :: bool

text \<open>The first argument of \<open>LuaType(...)\<close>: absent, a match object or a string.\<close>

datatype typeHint = NoHint | HintMatch rematch | HintStr string

definition initFlat :: "pystr \<Rightarrow> bool \<Rightarrow> bool \<Rightarrow> LuaType" where
  "initFlat name c s =
     \<lparr> type_name = (if name \<noteq> Some [] then name else Some ''nil''),
       isConst = c, isStatic = s \<rparr>"

definition LuaType_init :: "typeHint \<Rightarrow> bool \<Rightarrow> bool \<Rightarrow> LuaType" where
  "LuaType_init hint c s =
     (case hint of
        NoHint \<Rightarrow> initFlat (Some ''nil'') False False
      | HintMatch m \<Rightarrow> initFlat (m ''type'') (tryMatch m ''const'') (tryMatch m ''static'')
      | HintStr t \<Rightarrow> initFlat (Some t) c s)"

text \<open>\<open>LuaType(m)\<close> for the result \<open>m\<close> of a search, which may be \<open>None\<close>.\<close>

definition LuaType_of_search :: "rematch option \<Rightarrow> LuaType" where
  "LuaType_of_search x =
     LuaType_init (case x of None \<Rightarrow> NoHint | Some m \<Rightarrow> HintMatch m) False False"

subsection \<open>LuaVariable, LuaParam, LuaAttribute\<close>

record LuaVariable =
  var_name :: pystr
  luaType :: LuaType

definition LuaVariable_init :: "string \<Rightarrow> LuaType \<Rightarrow> LuaVariable" where
  "LuaVariable_init name ty =
     \<lparr> var_name = (if name = [] then type_name ty else Some name), luaType = ty \<rparr>"

definition LuaParam_init :: "patterns \<Rightarrow> string \<Rightarrow> LuaVariable" where
  "LuaParam_init ps line =
     (let paramMatcher = RE_FUNCTION_PARAMETER ps line
      in LuaVariable_init (tryMatchString paramMatcher ''name'')
           (LuaType_of_search paramMatcher))"

record LuaAttribute =
  attr_name :: pystr
  attr_luaType :: LuaType
  attr_description :: "DocDescription option"

definition LuaAttribute_init :: "patterns \<Rightarrow> string \<Rightarrow> error + LuaAttribute" where
  "LuaAttribute_init ps line =
     (let attribScraper = RE_ATTRIBUTE ps line
      in case tryMatchNone attribScraper ''name'' of
           None \<Rightarrow> Inl InvalidAttributeRematcher
         | Some name \<Rightarrow>
             (case tryMatchNone attribScraper ''type'' of
                None \<Rightarrow> Inl TypeError
              | Some t \<Rightarrow>
                  Inr \<lparr> attr_name = Some name,
                        attr_luaType =
                          LuaType_of_search (RE_ATTRIBUTE_TYPE ps (RE_HTML_REPLACER ps t)),
                        attr_description = None \<rparr>))"

subsection \<open>LuaFunction and LuaMethod\<close>

record LuaFunction =
  fn_name :: pystr
  fn_description :: "DocDescription option"
  parameters :: "LuaVariable list"
  returnType :: LuaType

text \<open>
  \<open>_findParameters\<close>: an absent or empty \<open>parameters\<close> group leaves the class
  level default \<open>[]\<close> in place (no statement of the program extends that list).
\<close>

definition findParameters :: "patterns \<Rightarrow> pystr \<Rightarrow> LuaVariable list" where
  "findParameters ps paramMatchedVals =
     (case paramMatchedVals of
        None \<Rightarrow> []
      | Some v \<Rightarrow>
          if v = [] then []
          else (let paramScraper = split_comma (RE_HTML_REPLACER ps v)
                in map (LuaParam_init ps) (filter (\<lambda>param. param \<noteq> []) paramScraper)))"

definition findReturnval :: "patterns \<Rightarrow> pystr \<Rightarrow> LuaType" where
  "findReturnval ps retMatchval =
     (case retMatchval of
        None \<Rightarrow> LuaType_init NoHint False False
      | Some v \<Rightarrow>
          if v = [] then LuaType_init NoHint False False
          else LuaType_of_search (RE_FUNCTION_RETURNS ps (RE_HTML_REPLACER ps v)))"

text \<open>The argument of \<open>LuaFunction(...)\<close>: a search result or a line to parse.\<close>

datatype fnArg = ArgMatch "rematch option" | ArgLine string

definition initMatch :: "patterns \<Rightarrow> rematch option \<Rightarrow> error + LuaFunction" where
  "initMatch ps functionRematcher =
     (case functionRematcher of
        None \<Rightarrow> Inl InvalidFunctionRematcher
      | Some m \<Rightarrow>
          Inr \<lparr> fn_name = m ''name'',
                fn_description = None,
                parameters = findParameters ps (m ''parameters''),
                returnType = findReturnval ps (m ''returns'') \<rparr>)"

definition initLine :: "patterns \<Rightarrow> string \<Rightarrow> error + LuaFunction" where
  "initLine ps line =
     (case RE_FUNCTION_SIGNATURE ps line of
        Some m \<Rightarrow> initMatch ps (Some m)
      | None \<Rightarrow> Inl InvalidFunctionRematcher)"

definition LuaFunction_init :: "patterns \<Rightarrow> fnArg \<Rightarrow> error + LuaFunction" where
  "LuaFunction_init ps arg =
     (case arg of ArgMatch m \<Rightarrow> initMatch ps m | ArgLine line \<Rightarrow> initLine ps line)"

text \<open>
  \<open>_parseDescription\<close>: the \<open>AttributeError\<close> of a failed search, or of
  \<open>strip\<close> on a group that is \<open>None\<close>, is answered with \<open>None\<close>.
\<close>

definition parseDescription :: "patterns \<Rightarrow> string \<Rightarrow> pystr" where
  "parseDescription ps line =
     (case RE_DESCRIPTION ps line of
        None \<Rightarrow> None
      | Some m \<Rightarrow>
          (case m ''1'' of
             None \<Rightarrow> None
           | Some g \<Rightarrow> Some (subHtmlFlags ps (strip g))))"

section \<open>Record builders\<close>

subsection \<open>Files\<close>

record dirent =
  de_name :: string
  de_is_dir :: bool

text \<open>
  The part of the file system the scraper reads: \<open>fs_scandir p\<close> is the listing
  \<open>os.scandir(p)\<close> iterates, in its order, and \<open>fs_read p\<close> the text of the file
  at \<open>p\<close>; \<open>None\<close> is a path that cannot be listed or opened.
\<close>

record filesystem =
  fs_scandir :: "string \<Rightarrow> dirent list option"
  fs_read :: "string \<Rightarrow> string option"

text \<open>\<open>open(path, 'r')\<close> followed by reading; the empty path names no file.\<close>

definition open_read :: "filesystem \<Rightarrow> string \<Rightarrow> error + string" where
  "open_read fs path =
     (if path = [] then Inl OSError
      else case fs_read fs path of None \<Rightarrow> Inl OSError | Some content \<Rightarrow> Inr content)"

subsection \<open>LuaClass\<close>

text \<open>
  \<open>constructor\<close> is a reference to one of the objects of \<open>methods\<close>, which later
  receives its description through \<open>self.methods[-1]\<close>; the list is only ever
  appended to, so the reference is the position of that object in \<open>methods\<close>.
\<close>

record LuaClass =
  parents :: "unit option"
  cls_name :: pystr
  cls_description :: "DocDescription option"
  parentNames :: "pystr list"
  methods :: "LuaFunction list"
  attributes :: "LuaAttribute list"
  constructor :: "nat option"

text \<open>
  \<open>LuaMethod(args, class_)\<close> (the parameter is \<open>cls\<close> here) returns the method and
  the class it may have updated: the assignment to the class's \<open>constructor\<close> is
  executed before the caller appends the method, so
  the method's position will be the current length of \<open>methods\<close>.
\<close>

definition LuaMethod_init :: "patterns \<Rightarrow> fnArg \<Rightarrow> LuaClass \<Rightarrow> error + (LuaFunction \<times> LuaClass)" where
  "LuaMethod_init ps args cls =
     (case LuaFunction_init ps args of
        Inl e \<Rightarrow> Inl e
      | Inr self \<Rightarrow>
          if fn_name self = cls_name cls
          then (case cls_name cls of
                  None \<Rightarrow> Inr (self\<lparr>returnType := LuaType_init NoHint False True\<rparr>,
                              cls\<lparr>constructor := Some (length (methods cls))\<rparr>)
                | Some n \<Rightarrow> Inr (self\<lparr>returnType := LuaType_init (HintStr n) False True\<rparr>,
                                cls\<lparr>constructor := Some (length (methods cls))\<rparr>))
          else Inr (self, cls))"

definition METHOD_SET :: nat where "METHOD_SET = 1"
definition ATTRIB_SET :: nat where "ATTRIB_SET = 2"

text \<open>The assignment \<open>xs[-1].description = d\<close>; \<open>xs[-1]\<close> raises on an empty list.\<close>

definition set_last_fn_description :: "LuaFunction list \<Rightarrow> DocDescription \<Rightarrow> error + LuaFunction list" where
  "set_last_fn_description xs d =
     (if xs = [] then Inl IndexError
      else Inr (butlast xs @ [(last xs)\<lparr>fn_description := Some d\<rparr>]))"

definition set_last_attr_description :: "LuaAttribute list \<Rightarrow> DocDescription \<Rightarrow> error + LuaAttribute list" where
  "set_last_attr_description xs d =
     (if xs = [] then Inl IndexError
      else Inr (butlast xs @ [(last xs)\<lparr>attr_description := Some d\<rparr>]))"

text \<open>One turn of the loop \<open>for curLine in classFile\<close> on the pair of the class and \<open>lastSet\<close>.\<close>

definition class_try_method :: "patterns \<Rightarrow> string \<Rightarrow> LuaClass \<times> nat \<Rightarrow> error + (LuaClass \<times> nat)" where
  "class_try_method ps curLine st =
     (case st of (self, lastSet) \<Rightarrow>
        (case LuaMethod_init ps (ArgLine curLine) self of
           Inl e \<Rightarrow> if e = InvalidFunctionRematcher then Inr (self, lastSet) else Inl e
         | Inr (m, self') \<Rightarrow> Inr (self'\<lparr>methods := methods self' @ [m]\<rparr>, METHOD_SET)))"

definition class_try_attribute :: "patterns \<Rightarrow> string \<Rightarrow> LuaClass \<times> nat \<Rightarrow> error + (LuaClass \<times> nat)" where
  "class_try_attribute ps curLine st =
     (case st of (self, lastSet) \<Rightarrow>
        (case LuaAttribute_init ps curLine of
           Inl e \<Rightarrow> if e = InvalidAttributeRematcher then Inr (self, lastSet) else Inl e
         | Inr a \<Rightarrow> Inr (self\<lparr>attributes := attributes self @ [a]\<rparr>, ATTRIB_SET)))"

definition class_try_description :: "patterns \<Rightarrow> string \<Rightarrow> string \<Rightarrow> LuaClass \<times> nat \<Rightarrow> error + (LuaClass \<times> nat)" where
  "class_try_description ps classPath curLine st =
     (case st of (self, lastSet) \<Rightarrow>
        (case parseDescription ps curLine of
           None \<Rightarrow> Inr (self, lastSet)
         | Some lineDescr \<Rightarrow>
             if lastSet = METHOD_SET then
               (case set_last_fn_description (methods self)
                       (DocDescription_init lineDescr (Some classPath)) of
                  Inl e \<Rightarrow> Inl e
                | Inr ms \<Rightarrow> Inr (self\<lparr>methods := ms\<rparr>, lastSet))
             else if lastSet = ATTRIB_SET then
               (case set_last_attr_description (attributes self)
                       (DocDescription_init lineDescr (Some classPath)) of
                  Inl e \<Rightarrow> Inl e
                | Inr as \<Rightarrow> Inr (self\<lparr>attributes := as\<rparr>, lastSet))
             else Inr (self, lastSet)))"

definition class_line :: "patterns \<Rightarrow> string \<Rightarrow> string \<Rightarrow> LuaClass \<times> nat \<Rightarrow> error + (LuaClass \<times> nat)" where
  "class_line ps classPath curLine st =
     (case class_try_method ps curLine st of
        Inl e \<Rightarrow> Inl e
      | Inr st1 \<Rightarrow>
          (case class_try_attribute ps curLine st1 of
             Inl e \<Rightarrow> Inl e
           | Inr st2 \<Rightarrow> class_try_description ps classPath curLine st2))"

fun class_lines :: "patterns \<Rightarrow> string \<Rightarrow> string list \<Rightarrow> LuaClass \<times> nat \<Rightarrow> error + (LuaClass \<times> nat)" where
  "class_lines ps classPath [] st = Inr st"
| "class_lines ps classPath (curLine # rest) st =
     (case class_line ps classPath curLine st of
        Inl e \<Rightarrow> Inl e
      | Inr st' \<Rightarrow> class_lines ps classPath rest st')"

text \<open>
  \<open>LuaClass(classPath)\<close>.  The search for the class name on \<open>None\<close> raises
  \<open>AttributeError\<close>; a name group that is \<open>None\<close> makes
  \<open>self.name + ' instance'\<close> raise \<open>TypeError\<close>.
\<close>

definition LuaClass_init :: "filesystem \<Rightarrow> patterns \<Rightarrow> string \<Rightarrow> error + LuaClass" where
  "LuaClass_init fs ps classPath =
     (case open_read fs classPath of
        Inl e \<Rightarrow> Inl e
      | Inr content \<Rightarrow>
          (case RE_CLASS_NAME ps content of
             None \<Rightarrow> Inl AttributeError
           | Some m \<Rightarrow>
               (case m ''1'' of
                  None \<Rightarrow> Inl TypeError
                | Some name \<Rightarrow>
                    (let self = \<lparr> parents = None,
                                  cls_name = Some name,
                                  cls_description =
                                    Some (DocDescription_init (name @ '' instance'') (Some classPath)),
                                  parentNames =
                                    (case RE_INHERITS_FROM ps content of
                                       None \<Rightarrow> []
                                     | Some inheritedMatcher \<Rightarrow> [inheritedMatcher ''1'']),
                                  methods = [],
                                  attributes = [],
                                  constructor = None \<rparr>
                     in case class_lines ps classPath (file_lines content) (self, 0) of
                          Inl e \<Rightarrow> Inl e
                        | Inr (self', lastSet) \<Rightarrow> Inr self'))))"

subsection \<open>LuaNamespace\<close>

record LuaNamespace =
  ns_name :: pystr
  ns_functions :: "LuaFunction list"

text \<open>One turn of the loop \<open>for curLine in namespaceFile\<close> on \<open>self.functions\<close>.\<close>

definition namespace_try_function :: "patterns \<Rightarrow> string \<Rightarrow> LuaFunction list \<Rightarrow> error + LuaFunction list" where
  "namespace_try_function ps curLine fns =
     (case LuaFunction_init ps (ArgLine curLine) of
        Inl e \<Rightarrow> if e = InvalidFunctionRematcher then Inr fns else Inl e
      | Inr f \<Rightarrow> Inr (fns @ [f]))"

definition namespace_try_description :: "patterns \<Rightarrow> string \<Rightarrow> LuaFunction list \<Rightarrow> error + LuaFunction list" where
  "namespace_try_description ps curLine fns =
     (case parseDescription ps curLine of
        None \<Rightarrow> Inr fns
      | Some lineDescr \<Rightarrow> set_last_fn_description fns (DocDescription_init lineDescr None))"

definition namespace_line :: "patterns \<Rightarrow> string \<Rightarrow> LuaFunction list \<Rightarrow> error + LuaFunction list" where
  "namespace_line ps curLine fns =
     (case namespace_try_function ps curLine fns of
        Inl e \<Rightarrow> Inl e
      | Inr fns1 \<Rightarrow> namespace_try_description ps curLine fns1)"

fun namespace_lines :: "patterns \<Rightarrow> string list \<Rightarrow> LuaFunction list \<Rightarrow> error + LuaFunction list" where
  "namespace_lines ps [] fns = Inr fns"
| "namespace_lines ps (curLine # rest) fns =
     (case namespace_line ps curLine fns of
        Inl e \<Rightarrow> Inl e
      | Inr fns' \<Rightarrow> namespace_lines ps rest fns')"

text \<open>
  The name of the namespace: the \<open>AttributeError\<close> of a failed search is caught, and
  raised again unless the file is \<open>group__funcs.html\<close>.
\<close>

definition namespace_name :: "patterns \<Rightarrow> string \<Rightarrow> string \<Rightarrow> error + pystr" where
  "namespace_name ps namespacePath content =
     (case RE_NAMESPACE_NAME ps content of
        Some m \<Rightarrow> Inr (m ''1'')
      | None \<Rightarrow>
          if basename namespacePath = ''group__funcs.html'' then Inr (Some ''_G'')
          else Inl AttributeError)"

definition LuaNamespace_init :: "filesystem \<Rightarrow> patterns \<Rightarrow> string \<Rightarrow> error + LuaNamespace" where
  "LuaNamespace_init fs ps namespacePath =
     (case open_read fs namespacePath of
        Inl e \<Rightarrow> Inl e
      | Inr content \<Rightarrow>
          (case namespace_name ps namespacePath content of
             Inl e \<Rightarrow> Inl e
           | Inr name \<Rightarrow>
               (case namespace_lines ps (file_lines content) [] of
                  Inl e \<Rightarrow> Inl e
                | Inr fns \<Rightarrow> Inr \<lparr> ns_name = name, ns_functions = fns \<rparr>)))"

subsection \<open>LuaEnumerator and its stream reader\<close>

record EnumTag =
  tag_name :: pystr
  tag_value :: int
  tag_description :: string

record LuaEnumerator =
  enum_name :: string
  members :: "EnumTag list"
  enum_description :: DocDescription

definition LuaEnumerator_init :: "string \<Rightarrow> pystr \<Rightarrow> EnumTag list \<Rightarrow> LuaEnumerator" where
  "LuaEnumerator_init name lnk ms =
     \<lparr> enum_name = name, members = ms,
       enum_description = DocDescription_init (''Enum '' @ name) lnk \<rparr>"

text \<open>
  An open text file.  \<open>tell\<close> returns an opaque number that is only ever handed back
  to \<open>seek\<close>, and both are called between two \<open>readline\<close>s, so a position is the
  number of lines read so far.
\<close>

record IO =
  io_name :: string
  io_lines :: "string list"
  io_pos :: nat

definition open_stream :: "filesystem \<Rightarrow> string \<Rightarrow> error + IO" where
  "open_stream fs path =
     (case open_read fs path of
        Inl e \<Rightarrow> Inl e
      | Inr content \<Rightarrow> Inr \<lparr> io_name = path, io_lines = file_lines content, io_pos = 0 \<rparr>)"

definition tell :: "IO \<Rightarrow> nat" where
  "tell f = io_pos f"

definition seek :: "IO \<Rightarrow> nat \<Rightarrow> IO" where
  "seek f p = f\<lparr>io_pos := p\<rparr>"

definition readline :: "IO \<Rightarrow> string \<times> IO" where
  "readline f =
     (if io_pos f < length (io_lines f)
      then (io_lines f ! io_pos f, f\<lparr>io_pos := Suc (io_pos f)\<rparr>)
      else ([], f))"

text \<open>
  The loop of \<open>__streamInit\<close>, entered with the line just read.  \<open>curEnumLink\<close>
  is assigned together with \<open>curEnumName\<close> and read only when the latter is not
  \<open>None\<close>; a link that is \<open>None\<close> makes \<open>fileName + '#' + curEnumLink\<close>
  raise \<open>TypeError\<close>.
\<close>

function stream_loop :: "patterns \<Rightarrow> IO \<Rightarrow> nat \<Rightarrow> string \<Rightarrow> EnumTag list \<Rightarrow> pystr \<Rightarrow> pystr
    \<Rightarrow> error + (LuaEnumerator option \<times> IO)" where
  "stream_loop ps openFile oldPointerPosition curLine curMemberList curEnumName curEnumLink =
     (if curLine \<noteq> [] then
        (case RE_ENUM_NAME ps curLine of
           Some enumNameScraper \<Rightarrow>
             (case curEnumName of
                None \<Rightarrow>
                  (case readline openFile of (nextLine, openFile') \<Rightarrow>
                     stream_loop ps openFile' (tell openFile) nextLine curMemberList
                       (enumNameScraper ''name'') (enumNameScraper ''link''))
              | Some name \<Rightarrow>
                  (case curEnumLink of
                     None \<Rightarrow> Inl TypeError
                   | Some lnk \<Rightarrow>
                       Inr (Some (LuaEnumerator_init name
                                    (Some (io_name openFile @ ''#'' @ lnk)) curMemberList),
                            seek openFile oldPointerPosition)))
         | None \<Rightarrow>
             (case RE_ENUM_MEMBER ps curLine of
                Some memberScraper \<Rightarrow>
                  (let descripString = tryMatchString (Some memberScraper) ''desc'';
                       tag = \<lparr> tag_name = memberScraper ''name'', tag_value = 0,
                               tag_description = RE_HTML_REPLACER ps descripString \<rparr>
                   in case readline openFile of (nextLine, openFile') \<Rightarrow>
                        stream_loop ps openFile' (tell openFile) nextLine (curMemberList @ [tag])
                          curEnumName curEnumLink)
              | None \<Rightarrow>
                  (case readline openFile of (nextLine, openFile') \<Rightarrow>
                     stream_loop ps openFile' (tell openFile) nextLine curMemberList
                       curEnumName curEnumLink)))
      else
        (case curEnumName of
           Some name \<Rightarrow> Inr (Some (LuaEnumerator_init name curEnumLink curMemberList), openFile)
         | None \<Rightarrow> Inr (None, openFile)))"
  by pat_completeness auto
termination
  by (relation "measure (\<lambda>(ps, f, old, l, ms, n, k).
        (length (io_lines f) - io_pos f) + (if l = [] then 0 else 1))")
     (auto simp: readline_def split: if_splits)

definition streamInit :: "patterns \<Rightarrow> IO \<Rightarrow> error + (LuaEnumerator option \<times> IO)" where
  "streamInit ps openFile =
     (let oldPointerPosition = tell openFile
      in case readline openFile of (curLine, openFile') \<Rightarrow>
           stream_loop ps openFile' oldPointerPosition curLine [] None None)"

section \<open>File categorizer\<close>

text \<open>File names are taken to be ASCII, where \<open>\w\<close> is \<open>[0-9A-Za-z_]\<close>.\<close>

definition isWord :: "char \<Rightarrow> bool" where
  "isWord c =
     (let n = of_char c :: nat
      in (48 \<le> n \<and> n \<le> 57) \<or> (65 \<le> n \<and> n \<le> 90) \<or> (97 \<le> n \<and> n \<le> 122) \<or> n = 95)"

text \<open>The look-ahead \<open>-members.html\<close>, whose dot stands for any character but a newline.\<close>

definition members_ahead :: "string \<Rightarrow> bool" where
  "members_ahead t =
     (take 8 t = ''-members'' \<and> 8 < length t \<and> t ! 8 \<noteq> CHR 0x0A \<and> take 4 (drop 9 t) = ''html'')"

text \<open>
  \<open>re.fullmatch(r'class_[0-9A-Za-z_]*(?!-members.html)\.html', name)\<close>.  The
  character after the starred class must be the dot of \<open>\.html\<close>, which the class
  excludes, so the star can only stop at the end of the longest run.
\<close>

definition isClassFile :: "string \<Rightarrow> bool" where
  "isClassFile name =
     (take 6 name = ''class_'' \<and>
      (let t = dropWhile isWord (drop 6 name)
       in \<not> members_ahead t \<and> t = ''.html''))"

text \<open>\<open>re.fullmatch(r'namespace_[\w]+\.html', name)\<close>.\<close>

definition isNamespaceFile :: "string \<Rightarrow> bool" where
  "isNamespaceFile name =
     (take 10 name = ''namespace_'' \<and>
      takeWhile isWord (drop 10 name) \<noteq> [] \<and>
      dropWhile isWord (drop 10 name) = ''.html'')"

text \<open>
  The generator \<open>allDocFiles\<close>: the pairs it yields, in order, and the exception that
  ends it, if any.  A consumer has received every pair of the list when the exception
  reaches it.
\<close>

fun allDocFiles_entries :: "filesystem \<Rightarrow> string \<Rightarrow> dirent list \<Rightarrow> (string \<times> string) list \<times> error option" where
  "allDocFiles_entries fs docPath [] = ([], None)"
| "allDocFiles_entries fs docPath (dirEntry # rest) =
     (if de_is_dir dirEntry then
        (if de_name dirEntry \<noteq> ''search'' then ([], Some UpdatedDocError)
         else (case fs_scandir fs (join docPath (de_name dirEntry)) of
                 None \<Rightarrow> ([], Some OSError)
               | Some sub \<Rightarrow>
                   (case allDocFiles_entries fs docPath rest of (ys, err) \<Rightarrow>
                      (map (\<lambda>searchFile. (de_name searchFile, join docPath (de_name dirEntry))) sub @ ys,
                       err))))
      else (case allDocFiles_entries fs docPath rest of (ys, err) \<Rightarrow>
              ((de_name dirEntry, docPath) # ys, err)))"

definition allDocFiles :: "filesystem \<Rightarrow> string \<Rightarrow> (string \<times> string) list \<times> error option" where
  "allDocFiles fs docPath =
     (case fs_scandir fs docPath of
        None \<Rightarrow> ([], Some OSError)
      | Some entries \<Rightarrow> allDocFiles_entries fs docPath entries)"

text \<open>
  The calls of the two filters, in the order \<open>categorizeFiles\<close> makes them: each
  list comprehension applies its filter to a pair as soon as the generator yields it.
\<close>

datatype probe = ClassProbe string | NamespaceProbe string

definition categorizeFiles_traced :: "filesystem \<Rightarrow> string
    \<Rightarrow> (error + (string list \<times> string list \<times> string list \<times> string list)) \<times> probe list" where
  "categorizeFiles_traced fs docPath =
     (case allDocFiles fs docPath of (items1, err1) \<Rightarrow>
        (case err1 of
           Some e \<Rightarrow> (Inl e, map (\<lambda>(curFile, curDir). ClassProbe curFile) items1)
         | None \<Rightarrow>
             (case allDocFiles fs docPath of (items2, err2) \<Rightarrow>
                (case err2 of
                   Some e \<Rightarrow>
                     (Inl e, map (\<lambda>(curFile, curDir). ClassProbe curFile) items1 @
                             map (\<lambda>(curFile, curDir). NamespaceProbe curFile) items2)
                 | None \<Rightarrow>
                     (Inr ([join curDir curFile. (curFile, curDir) \<leftarrow> items1, isClassFile curFile],
                           [join curDir curFile. (curFile, curDir) \<leftarrow> items2, isNamespaceFile curFile],
                           [join docPath ''group__enums.html''],
                           [join docPath ''group__funcs.html'']),
                      map (\<lambda>(curFile, curDir). ClassProbe curFile) items1 @
                      map (\<lambda>(curFile, curDir). NamespaceProbe curFile) items2)))))"

definition categorizeFiles :: "filesystem \<Rightarrow> string
    \<Rightarrow> error + (string list \<times> string list \<times> string list \<times> string list)" where
  "categorizeFiles fs docPath = fst (categorizeFiles_traced fs docPath)"

section \<open>API assembler\<close>

subsection \<open>The stream reader moves forward\<close>

text \<open>
  A call of the reader that returns an enumerator leaves the stream behind the position
  it started from: the rewind only goes back to the line that opens the next record.
\<close>

lemma stream_loop_pos:
  "stream_loop ps f old l ms n k = Inr (Some en, f') \<Longrightarrow>
     io_lines f' = io_lines f \<and>
     (n = None \<longrightarrow> l \<noteq> [] \<and> io_pos f \<le> io_pos f') \<and>
     (n \<noteq> None \<longrightarrow> old \<le> io_pos f \<longrightarrow> old \<le> io_pos f')"
proof (induction ps f old l ms n k arbitrary: en f' rule: stream_loop.induct)
  case (1 ps f old l ms n k)
  show ?case
  proof (cases "l = []")
    case True
    with "1.prems" show ?thesis by (auto split: option.splits)
  next
    case False
    note ne = False
    show ?thesis
    proof (cases "RE_ENUM_NAME ps l")
      case None
      note noname = None
      obtain l' f1 where rl: "readline f = (l', f1)" by (cases "readline f") auto
      have mono: "io_lines f1 = io_lines f \<and> io_pos f \<le> io_pos f1"
        using rl by (auto simp: readline_def split: if_splits)
      show ?thesis
      proof (cases "RE_ENUM_MEMBER ps l")
        case None
        from "1.prems" ne noname None rl
        have r: "stream_loop ps f1 (tell f) l' ms n k = Inr (Some en, f')" by simp
        from "1.IH"(1)[OF ne noname None rl[symmetric] r] mono ne
        show ?thesis by (auto simp: tell_def)
      next
        case (Some m)
        from "1.prems" ne noname Some rl
        have r: "stream_loop ps f1 (tell f) l'
           (ms @ [\<lparr> tag_name = m ''name'', tag_value = 0,
                               tag_description = RE_HTML_REPLACER ps (tryMatchString (Some m) ''desc'') \<rparr>]) n k = Inr (Some en, f')" by (simp add: Let_def)
        from "1.IH"(2)[OF ne noname Some refl refl rl[symmetric] r] mono ne
        show ?thesis by (auto simp: tell_def)
      qed
    next
      case (Some sc)
      note nm = Some
      show ?thesis
      proof (cases n)
        case None
        obtain l' f1 where rl: "readline f = (l', f1)" by (cases "readline f") auto
        have mono: "io_lines f1 = io_lines f \<and> io_pos f \<le> io_pos f1"
          using rl by (auto simp: readline_def split: if_splits)
        from "1.prems" ne nm None rl
        have r: "stream_loop ps f1 (tell f) l' ms (sc ''name'') (sc ''link'') = Inr (Some en, f')" by simp
        from "1.IH"(3)[OF ne nm None rl[symmetric] r] mono ne None
        show ?thesis by (cases "sc ''name''") (auto simp: tell_def)
      next
        case (Some a)
        with "1.prems" ne nm show ?thesis
          by (auto simp: seek_def split: option.splits)
      qed
    qed
  qed
qed

lemma streamInit_advances:
  assumes "streamInit ps f = Inr (Some en, f')"
  shows "io_lines f' = io_lines f \<and> io_pos f < io_pos f' \<and> io_pos f < length (io_lines f)"
proof -
  obtain l f1 where rl: "readline f = (l, f1)" by (cases "readline f") auto
  with assms have r: "stream_loop ps f1 (tell f) l [] None None = Inr (Some en, f')"
    by (simp add: streamInit_def)
  from stream_loop_pos[OF r] have a: "io_lines f' = io_lines f1" "l \<noteq> []" "io_pos f1 \<le> io_pos f'"
    by auto
  from rl a(2) have "io_pos f < length (io_lines f)" "io_pos f1 = Suc (io_pos f)" "io_lines f1 = io_lines f"
    by (auto simp: readline_def split: if_splits)
  with a show ?thesis by simp
qed

subsection \<open>AfterbirthApi\<close>

text \<open>
  The loop \<open>while True\<close> of the assembler on one open enum file.  Its third argument
  is the content of the list \<open>self.enumerators\<close> refers to, which \<open>+=\<close> extends
  in place; the result is that content when the loop ends, and the exception that ended
  it, if any.
\<close>

function drain_enums :: "patterns \<Rightarrow> IO \<Rightarrow> LuaEnumerator list \<Rightarrow> error option \<times> LuaEnumerator list" where
  "drain_enums ps enumStream enumerators =
     (case streamInit ps enumStream of
        Inl e \<Rightarrow> (Some e, enumerators)
      | Inr (None, enumStream') \<Rightarrow> (None, enumerators)
      | Inr (Some curEnum, enumStream') \<Rightarrow> drain_enums ps enumStream' (enumerators @ [curEnum]))"
  by pat_completeness auto
termination
proof (relation "measure (\<lambda>(ps, f, acc). length (io_lines f) - io_pos f)")
  show "wf (measure (\<lambda>(ps, f, acc). length (io_lines f) - io_pos f))" by simp
next
  fix ps enumStream enumerators x2 x1 enumStream' curEnum
  assume "streamInit ps enumStream = Inr x2" "(x1, enumStream') = x2" "x1 = Some curEnum"
  then have "streamInit ps enumStream = Inr (Some curEnum, enumStream')" by simp
  from streamInit_advances[OF this]
  show "((ps, enumStream', enumerators @ [curEnum]), (ps, enumStream, enumerators))
        \<in> measure (\<lambda>(ps, f, acc). length (io_lines f) - io_pos f)"
    by (simp add: diff_less_mono2)
qed

text \<open>\<open>[C(f) for f in files]\<close>: the first exception ends the comprehension.\<close>

fun build_all :: "('a \<Rightarrow> error + 'b) \<Rightarrow> 'a list \<Rightarrow> error + 'b list" where
  "build_all mk [] = Inr []"
| "build_all mk (f # fs) =
     (case mk f of
        Inl e \<Rightarrow> Inl e
      | Inr x \<Rightarrow> (case build_all mk fs of Inl e \<Rightarrow> Inl e | Inr xs \<Rightarrow> Inr (x # xs)))"

fun enum_files :: "filesystem \<Rightarrow> patterns \<Rightarrow> string list \<Rightarrow> LuaEnumerator list
    \<Rightarrow> error option \<times> LuaEnumerator list" where
  "enum_files fs ps [] enumerators = (None, enumerators)"
| "enum_files fs ps (curFile # rest) enumerators =
     (case open_stream fs curFile of
        Inl e \<Rightarrow> (Some e, enumerators)
      | Inr enumStream \<Rightarrow>
          (case drain_enums ps enumStream enumerators of
             (Some e, enumerators') \<Rightarrow> (Some e, enumerators')
           | (None, enumerators') \<Rightarrow> enum_files fs ps rest enumerators'))"

text \<open>
  The class body of \<open>AfterbirthApi\<close> creates one list object for \<open>enumerators\<close>
  when the module is loaded.  \<open>__init__\<close> assigns fresh lists to
  \<open>self.classes\<close> and \<open>self.namespaces\<close>, but reaches \<open>enumerators\<close> only
  through \<open>self.enumerators += [curEnum]\<close>, that is
  \<open>self.enumerators = self.enumerators.__iadd__([curEnum])\<close>: the attribute lookup
  finds the class level list, \<open>__iadd__\<close> extends that object in place and returns
  it, and the instance attribute is bound to the same object.  The \<open>enumerators\<close> of
  every instance therefore is the class level list, whose content is the one mutable
  cell of the model.
\<close>

type_synonym heap = "LuaEnumerator list"

record AfterbirthApi =
  classes :: "LuaClass list"
  namespaces :: "LuaNamespace list"

definition enumerators :: "heap \<Rightarrow> AfterbirthApi \<Rightarrow> LuaEnumerator list" where
  "enumerators h self = h"

definition AfterbirthApi_init :: "filesystem \<Rightarrow> patterns \<Rightarrow> string \<Rightarrow> heap
    \<Rightarrow> (error + AfterbirthApi) \<times> heap" where
  "AfterbirthApi_init fs ps docPath h =
     (case categorizeFiles fs docPath of
        Inl e \<Rightarrow> (Inl e, h)
      | Inr (classFiles, nsFiles, enumFiles, funFiles) \<Rightarrow>
          (case build_all (LuaClass_init fs ps) classFiles of
             Inl e \<Rightarrow> (Inl e, h)
           | Inr cs \<Rightarrow>
               (case build_all (LuaNamespace_init fs ps) (nsFiles @ funFiles) of
                  Inl e \<Rightarrow> (Inl e, h)
                | Inr nss \<Rightarrow>
                    (case enum_files fs ps enumFiles h of
                       (Some e, h') \<Rightarrow> (Inl e, h')
                     | (None, h') \<Rightarrow> (Inr \<lparr> classes = cs, namespaces = nss \<rparr>, h')))))"

section \<open>A small pattern library and documentation tree\<close>

text \<open>
  A pattern library to run the builders on concrete files: a line is recognised by its
  first character, and the named groups capture the rest of that line.  A search in a
  text of several lines finds the first such line.
\<close>

definition rest_of :: "string \<Rightarrow> string" where
  "rest_of l = takeWhile (\<lambda>c. c \<noteq> CHR 0x0A) (tl l)"

definition tagged :: "char \<Rightarrow> string list \<Rightarrow> string \<Rightarrow> rematch option" where
  "tagged t groups text =
     (case filter (\<lambda>l. hd l = t) (file_lines text) of
        [] \<Rightarrow> None
      | l # _ \<Rightarrow> Some (\<lambda>g. if g \<in> set groups then Some (rest_of l) else None))"

definition demo_patterns :: patterns where
  "demo_patterns =
     \<lparr> RE_FUNCTION_SIGNATURE = tagged (CHR ''F'') [''name''],
       RE_FUNCTION_PARAMETER = (\<lambda>s. None),
       RE_FUNCTION_RETURNS = (\<lambda>s. None),
       RE_ATTRIBUTE = tagged (CHR ''A'') [''name'', ''type''],
       RE_ATTRIBUTE_TYPE = (\<lambda>s. None),
       RE_CLASS_NAME = tagged (CHR ''C'') [''1''],
       RE_INHERITS_FROM = (\<lambda>s. None),
       RE_NAMESPACE_NAME = tagged (CHR ''N'') [''1''],
       RE_ENUM_NAME = tagged (CHR ''E'') [''name'', ''link''],
       RE_ENUM_MEMBER = tagged (CHR ''M'') [''name''],
       RE_DESCRIPTION = tagged (CHR ''D'') [''1''],
       RE_HTML_REPLACER = (\<lambda>s. s),
       subHtmlFlags = (\<lambda>s. s) \<rparr>"

text \<open>
  A documentation tree for that library: one class file, one namespace file, the two
  aggregate files and the \<open>search\<close> directory, together with the records the
  builders produce from it.
\<close>

definition demo_fs :: filesystem where
  "demo_fs =
     \<lparr> fs_scandir = map_of
         [(''doc'', [\<lparr> de_name = ''class_foo.html'', de_is_dir = False \<rparr>,
                    \<lparr> de_name = ''search'', de_is_dir = True \<rparr>,
                    \<lparr> de_name = ''namespace_bar.html'', de_is_dir = False \<rparr>,
                    \<lparr> de_name = ''group__enums.html'', de_is_dir = False \<rparr>,
                    \<lparr> de_name = ''group__funcs.html'', de_is_dir = False \<rparr>]),
          (''doc/search'', [\<lparr> de_name = ''all_1.js'', de_is_dir = False \<rparr>])],
       fs_read = map_of
         [(''doc/class_foo.html'',
             ''Cfoo'' @ [CHR 0x0A] @ ''Ffoo'' @ [CHR 0x0A] @ ''Dmakes a foo'' @ [CHR 0x0A] @
             ''Asize'' @ [CHR 0x0A] @ ''Dthe size'' @ [CHR 0x0A] @ ''Fbar'' @ [CHR 0x0A] @
             ''Ffoo'' @ [CHR 0x0A]),
          (''doc/namespace_bar.html'',
             ''Nbar'' @ [CHR 0x0A] @ ''Fbaz'' @ [CHR 0x0A] @ ''Ddoes baz'' @ [CHR 0x0A]),
          (''doc/group__enums.html'',
             ''EColor'' @ [CHR 0x0A] @ ''MRed'' @ [CHR 0x0A] @ ''MGreen'' @ [CHR 0x0A] @
             ''EShape'' @ [CHR 0x0A] @ ''MRound'' @ [CHR 0x0A]),
          (''doc/group__funcs.html'', ''Fprint'' @ [CHR 0x0A] @ ''Dprints'' @ [CHR 0x0A])] \<rparr>"

definition nil_type :: LuaType where
  "nil_type = \<lparr> type_name = Some ''nil'', isConst = False, isStatic = False \<rparr>"

definition demo_class :: LuaClass where
  "demo_class =
     \<lparr> parents = None, cls_name = Some ''foo'',
       cls_description =
         Some \<lparr> description = ''foo instance'',
                link = Some ''https://moddingofisaac.com/docs/class_foo.html'' \<rparr>,
       parentNames = [],
       methods =
         [\<lparr> fn_name = Some ''foo'',
             fn_description =
               Some \<lparr> description = ''makes a foo'',
                      link = Some ''https://moddingofisaac.com/docs/class_foo.html'' \<rparr>,
             parameters = [],
             returnType = \<lparr> type_name = Some ''foo'', isConst = False, isStatic = True \<rparr> \<rparr>,
          \<lparr> fn_name = Some ''bar'', fn_description = None, parameters = [],
             returnType = nil_type \<rparr>,
          \<lparr> fn_name = Some ''foo'', fn_description = None, parameters = [],
             returnType = \<lparr> type_name = Some ''foo'', isConst = False, isStatic = True \<rparr> \<rparr>],
       attributes =
         [\<lparr> attr_name = Some ''size'', attr_luaType = nil_type,
             attr_description =
               Some \<lparr> description = ''the size'',
                      link = Some ''https://moddingofisaac.com/docs/class_foo.html'' \<rparr> \<rparr>],
       constructor = Some 2 \<rparr>"

definition demo_namespace :: LuaNamespace where
  "demo_namespace =
     \<lparr> ns_name = Some ''bar'',
       ns_functions =
         [\<lparr> fn_name = Some ''baz'',
             fn_description = Some \<lparr> description = ''does baz'', link = None \<rparr>,
             parameters = [], returnType = nil_type \<rparr>] \<rparr>"

text \<open>
  More trees, in an older layout.  Under \<open>old\<close>: a class file and two namespace
  files without their name markers, a class file with one method and one attribute, and
  namespace and function files whose first description comes before their first
  function; its listing holds a subdirectory that is not \<open>search\<close>.  The root
  \<open>mixed\<close> has such a subdirectory after a \<open>search\<close> directory; the
  \<open>search\<close> directories of \<open>locked\<close> and \<open>closed\<close> cannot be listed.
\<close>

definition nl :: string where
  "nl = [CHR 0x0A]"

definition other_fs :: filesystem where
  "other_fs =
     \<lparr> fs_scandir = map_of
         [(''old'', [\<lparr> de_name = ''class_bare.html'', de_is_dir = False \<rparr>,
                    \<lparr> de_name = ''html'', de_is_dir = True \<rparr>,
                    \<lparr> de_name = ''class_pair.html'', de_is_dir = False \<rparr>]),
          (''mixed'', [\<lparr> de_name = ''class_a.html'', de_is_dir = False \<rparr>,
                      \<lparr> de_name = ''search'', de_is_dir = True \<rparr>,
                      \<lparr> de_name = ''html'', de_is_dir = True \<rparr>]),
          (''mixed/search'', [\<lparr> de_name = ''all_0.js'', de_is_dir = False \<rparr>]),
          (''locked'', [\<lparr> de_name = ''search'', de_is_dir = True \<rparr>,
                       \<lparr> de_name = ''html'', de_is_dir = True \<rparr>]),
          (''closed'', [\<lparr> de_name = ''search'', de_is_dir = True \<rparr>])],
       fs_read = map_of
         [(''old/class_bare.html'', ''Fbar'' @ nl),
          (''old/class_pair.html'',
             ''Cpair'' @ nl @ ''Ffirst'' @ nl @ ''Dthe first'' @ nl @ ''Asecond'' @ nl @
             ''Dthe second'' @ nl),
          (''old/namespace_bare.html'', ''Fbaz'' @ nl),
          (''old/namespace_lost.html'', ''Dorphan'' @ nl @ ''Fsin'' @ nl),
          (''old/namespace_math.html'', ''Nmath'' @ nl @ ''Dorphan'' @ nl @ ''Fsin'' @ nl),
          (''old/group__funcs.html'', ''Dorphan'' @ nl @ ''Fprint'' @ nl)] \<rparr>"


section \<open>Properties of the value objects\<close>


section \<open>Properties of the class and namespace builders\<close>

subsection \<open>Single steps\<close>

lemma open_read_nonempty: "open_read fs p = Inr content \<Longrightarrow> p \<noteq> []"
  by (auto simp: open_read_def split: if_splits)

lemma LuaFunction_init_error: "LuaFunction_init ps arg = Inl e \<Longrightarrow> e = InvalidFunctionRematcher"
  by (auto simp: LuaFunction_init_def initLine_def initMatch_def split: fnArg.splits option.splits)

lemma LuaFunction_init_line:
  "LuaFunction_init ps (ArgLine l) =
     (case RE_FUNCTION_SIGNATURE ps l of
        None \<Rightarrow> Inl InvalidFunctionRematcher
      | Some m \<Rightarrow> Inr \<lparr> fn_name = m ''name'', fn_description = None,
                       parameters = findParameters ps (m ''parameters''),
                       returnType = findReturnval ps (m ''returns'') \<rparr>)"
  by (simp add: LuaFunction_init_def initLine_def initMatch_def split: option.splits)

lemma LuaAttribute_init_error:
  "LuaAttribute_init ps l = Inl e \<Longrightarrow> e = InvalidAttributeRematcher \<or> e = TypeError"
  by (auto simp: LuaAttribute_init_def Let_def split: option.splits)

lemma LuaAttribute_init_fresh:
  "LuaAttribute_init ps l = Inr a \<Longrightarrow> attr_description a = None"
  by (auto simp: LuaAttribute_init_def Let_def split: option.splits)

text \<open>The method attempt, by the outcome of the signature search.\<close>

lemma class_try_method_None:
  "RE_FUNCTION_SIGNATURE ps l = None \<Longrightarrow> class_try_method ps l st = Inr st"
  by (cases st) (simp add: class_try_method_def LuaMethod_init_def LuaFunction_init_line)

lemma class_try_method_Some:
  assumes "RE_FUNCTION_SIGNATURE ps l = Some m"
  shows "\<exists>f c'. class_try_method ps l (c, ls) = Inr (c', METHOD_SET)
           \<and> methods c' = methods c @ [f] \<and> attributes c' = attributes c
           \<and> cls_name c' = cls_name c
           \<and> fn_name f = m ''name'' \<and> fn_description f = None
           \<and> (if m ''name'' = cls_name c
               then constructor c' = Some (length (methods c))
                    \<and> returnType f = LuaType_init (case cls_name c of None \<Rightarrow> NoHint | Some n \<Rightarrow> HintStr n) False True
               else constructor c' = constructor c \<and> returnType f = findReturnval ps (m ''returns''))"
  using assms
  by (auto simp: class_try_method_def LuaMethod_init_def LuaFunction_init_line split: option.splits)

lemma class_try_attribute_cases:
  "class_try_attribute ps l (c, ls) = Inl TypeError
   \<or> class_try_attribute ps l (c, ls) = Inr (c, ls) \<and> LuaAttribute_init ps l = Inl InvalidAttributeRematcher
   \<or> (\<exists>a. LuaAttribute_init ps l = Inr a \<and> attr_description a = None
          \<and> class_try_attribute ps l (c, ls) = Inr (c\<lparr>attributes := attributes c @ [a]\<rparr>, ATTRIB_SET))"
proof (cases "LuaAttribute_init ps l")
  case (Inl e)
  with LuaAttribute_init_error[OF Inl] show ?thesis
    by (auto simp: class_try_attribute_def)
next
  case (Inr a)
  with LuaAttribute_init_fresh[OF Inr] show ?thesis
    by (auto simp: class_try_attribute_def)
qed


text \<open>Attaching a description changes one field of the last element and nothing else.\<close>

lemma set_last_fn_description_cases:
  "set_last_fn_description xs d = (if xs = [] then Inl IndexError
     else Inr (xs[length xs - 1 := (xs ! (length xs - 1))\<lparr>fn_description := Some d\<rparr>]))"
proof (cases "xs = []")
  case True
  then show ?thesis by (simp add: set_last_fn_description_def)
next
  case False
  then obtain ys y where xs: "xs = ys @ [y]" by (metis rev_exhaust)
  show ?thesis by (simp add: set_last_fn_description_def xs)
qed

lemma set_last_attr_description_cases:
  "set_last_attr_description xs d = (if xs = [] then Inl IndexError
     else Inr (xs[length xs - 1 := (xs ! (length xs - 1))\<lparr>attr_description := Some d\<rparr>]))"
proof (cases "xs = []")
  case True
  then show ?thesis by (simp add: set_last_attr_description_def)
next
  case False
  then obtain ys y where xs: "xs = ys @ [y]" by (metis rev_exhaust)
  show ?thesis by (simp add: set_last_attr_description_def xs)
qed

definition doc_url :: "string \<Rightarrow> string" where
  "doc_url path = ''https://moddingofisaac.com/docs/'' @ basename path"

definition class_inv :: "string \<Rightarrow> LuaClass \<times> nat \<Rightarrow> bool" where
  "class_inv classPath st =
     (case st of (c, lastSet) \<Rightarrow>
        (lastSet = METHOD_SET \<longrightarrow> methods c \<noteq> []) \<and>
        (lastSet = ATTRIB_SET \<longrightarrow> attributes c \<noteq> []) \<and>
        (\<forall>m \<in> set (methods c). \<forall>d. fn_description m = Some d \<longrightarrow> link d = Some (doc_url classPath)) \<and>
        (\<forall>a \<in> set (attributes c). \<forall>d. attr_description a = Some d \<longrightarrow> link d = Some (doc_url classPath)) \<and>
        (\<forall>i < length (methods c). fn_name (methods c ! i) = cls_name c \<longrightarrow>
            (\<exists>j. constructor c = Some j \<and> i \<le> j) \<and>
            returnType (methods c ! i) =
              LuaType_init (case cls_name c of None \<Rightarrow> NoHint | Some n \<Rightarrow> HintStr n) False True) \<and>
        (\<forall>j. constructor c = Some j \<longrightarrow> j < length (methods c) \<and> fn_name (methods c ! j) = cls_name c))"

lemma class_try_method_inv:
  assumes "class_inv p (c, ls)" "class_try_method ps l (c, ls) = Inr st'"
  shows "class_inv p st'"
proof (cases "RE_FUNCTION_SIGNATURE ps l")
  case None
  with assms class_try_method_None[OF None] show ?thesis by simp
next
  case (Some m)
  from class_try_method_Some[OF Some, of c ls] assms(2)
  obtain f c' where st': "st' = (c', METHOD_SET)"
    and ms: "methods c' = methods c @ [f]" and as: "attributes c' = attributes c"
    and nm: "cls_name c' = cls_name c" and fnm: "fn_name f = m ''name''" and fd: "fn_description f = None"
    and ct: "if m ''name'' = cls_name c
               then constructor c' = Some (length (methods c))
                    \<and> returnType f = LuaType_init (case cls_name c of None \<Rightarrow> NoHint | Some n \<Rightarrow> HintStr n) False True
               else constructor c' = constructor c \<and> returnType f = findReturnval ps (m ''returns'')"
    by auto
  have inv: "(\<forall>m \<in> set (methods c). \<forall>d. fn_description m = Some d \<longrightarrow> link d = Some (doc_url p))"
    "(\<forall>a \<in> set (attributes c). \<forall>d. attr_description a = Some d \<longrightarrow> link d = Some (doc_url p))"
    "(\<forall>i < length (methods c). fn_name (methods c ! i) = cls_name c \<longrightarrow>
            (\<exists>j. constructor c = Some j \<and> i \<le> j) \<and>
            returnType (methods c ! i) =
              LuaType_init (case cls_name c of None \<Rightarrow> NoHint | Some n \<Rightarrow> HintStr n) False True)"
    "(\<forall>j. constructor c = Some j \<longrightarrow> j < length (methods c) \<and> fn_name (methods c ! j) = cls_name c)"
    "ls = ATTRIB_SET \<longrightarrow> attributes c \<noteq> []"
    using assms(1) by (auto simp: class_inv_def)
  have a: "\<forall>m \<in> set (methods c'). \<forall>d. fn_description m = Some d \<longrightarrow> link d = Some (doc_url p)"
    using inv(1) fd by (auto simp: ms)
  have b: "\<forall>a \<in> set (attributes c'). \<forall>d. attr_description a = Some d \<longrightarrow> link d = Some (doc_url p)"
    using inv(2) by (simp add: as)
  have c: "\<forall>i < length (methods c'). fn_name (methods c' ! i) = cls_name c' \<longrightarrow>
            (\<exists>j. constructor c' = Some j \<and> i \<le> j) \<and>
            returnType (methods c' ! i) =
              LuaType_init (case cls_name c' of None \<Rightarrow> NoHint | Some n \<Rightarrow> HintStr n) False True"
  proof (intro allI impI)
    fix i assume i: "i < length (methods c')" and eq: "fn_name (methods c' ! i) = cls_name c'"
    show "(\<exists>j. constructor c' = Some j \<and> i \<le> j) \<and>
            returnType (methods c' ! i) =
              LuaType_init (case cls_name c' of None \<Rightarrow> NoHint | Some n \<Rightarrow> HintStr n) False True"
    proof (cases "i < length (methods c)")
      case True
      with eq have "fn_name (methods c ! i) = cls_name c" by (simp add: ms nm nth_append)
      with inv(3) True obtain j where j: "constructor c = Some j" "i \<le> j"
        and rt: "returnType (methods c ! i) =
              LuaType_init (case cls_name c of None \<Rightarrow> NoHint | Some n \<Rightarrow> HintStr n) False True"
        by blast
      from inv(4) j have "j < length (methods c)" by simp
      with j ct True have "\<exists>j. constructor c' = Some j \<and> i \<le> j"
        by (cases "m ''name'' = cls_name c") auto
      with rt True show ?thesis by (simp add: ms nm nth_append)
    next
      case False
      with i have ieq: "i = length (methods c)" by (simp add: ms)
      with eq have "m ''name'' = cls_name c" by (simp add: ms nm fnm)
      with ct ieq show ?thesis by (simp add: ms nm)
    qed
  qed
  have d: "\<forall>j. constructor c' = Some j \<longrightarrow> j < length (methods c') \<and> fn_name (methods c' ! j) = cls_name c'"
  proof (cases "m ''name'' = cls_name c")
    case True
    with ct show ?thesis by (simp add: ms nm fnm)
  next
    case False
    with ct inv(4) show ?thesis by (auto simp: ms nm nth_append)
  qed
  show ?thesis
    unfolding st' class_inv_def using a b c d by (simp add: ms as METHOD_SET_def ATTRIB_SET_def)
qed


lemma class_try_attribute_inv:
  assumes "class_inv p (c, ls)" "class_try_attribute ps l (c, ls) = Inr st'"
  shows "class_inv p st'"
  using class_try_attribute_cases[of ps l c ls] assms
  by (auto simp: class_inv_def METHOD_SET_def ATTRIB_SET_def)

lemma class_try_description_inv:
  assumes "class_inv p (c, ls)" "class_try_description ps p l (c, ls) = Inr st'" "p \<noteq> []"
  shows "class_inv p st'"
proof (cases "parseDescription ps l")
  case None
  with assms show ?thesis by (simp add: class_try_description_def)
next
  case (Some d)
  have lk: "link (DocDescription_init d (Some p)) = Some (doc_url p)"
    using assms(3) by (simp add: DocDescription_init_def doc_url_def)
  consider (m) "ls = METHOD_SET" | (a) "ls = ATTRIB_SET" | (n) "ls \<noteq> METHOD_SET" "ls \<noteq> ATTRIB_SET"
    by blast
  then show ?thesis
  proof cases
    case m
    with assms(1) have ne: "methods c \<noteq> []" by (simp add: class_inv_def)
    let ?ms = "(methods c)[length (methods c) - 1 :=
                 (methods c ! (length (methods c) - 1))\<lparr>fn_description := Some (DocDescription_init d (Some p))\<rparr>]"
    from assms(2) Some m ne have st': "st' = (c\<lparr>methods := ?ms\<rparr>, ls)"
      by (auto simp: class_try_description_def set_last_fn_description_cases)
    have nth: "\<And>i. i < length (methods c) \<Longrightarrow> fn_name (?ms ! i) = fn_name (methods c ! i)
                 \<and> returnType (?ms ! i) = returnType (methods c ! i)"
      by (simp add: nth_list_update)
    have setm: "\<And>x dd. x \<in> set ?ms \<Longrightarrow> fn_description x = Some dd \<Longrightarrow> link dd = Some (doc_url p)"
    proof -
      fix x dd assume x: "x \<in> set ?ms" and dd: "fn_description x = Some dd"
      from x have "x \<in> set (methods c) \<or>
          x = (methods c ! (length (methods c) - 1))\<lparr>fn_description := Some (DocDescription_init d (Some p))\<rparr>"
        using set_update_subset_insert[of "methods c"] by blast
      then show "link dd = Some (doc_url p)"
        using assms(1) dd lk by (auto simp: class_inv_def)
    qed
    show ?thesis
      unfolding st' class_inv_def using assms(1) nth setm ne
      by (auto simp: class_inv_def)
  next
    case a
    with assms(1) have ne: "attributes c \<noteq> []" by (simp add: class_inv_def)
    let ?as = "(attributes c)[length (attributes c) - 1 :=
                 (attributes c ! (length (attributes c) - 1))\<lparr>attr_description := Some (DocDescription_init d (Some p))\<rparr>]"
    from assms(2) Some a ne have st': "st' = (c\<lparr>attributes := ?as\<rparr>, ls)"
      by (auto simp: class_try_description_def set_last_attr_description_cases METHOD_SET_def ATTRIB_SET_def)
    have seta: "\<And>x dd. x \<in> set ?as \<Longrightarrow> attr_description x = Some dd \<Longrightarrow> link dd = Some (doc_url p)"
    proof -
      fix x dd assume x: "x \<in> set ?as" and dd: "attr_description x = Some dd"
      from x have "x \<in> set (attributes c) \<or>
          x = (attributes c ! (length (attributes c) - 1))\<lparr>attr_description := Some (DocDescription_init d (Some p))\<rparr>"
        using set_update_subset_insert[of "attributes c"] by blast
      then show "link dd = Some (doc_url p)"
        using assms(1) dd lk by (auto simp: class_inv_def)
    qed
    show ?thesis
      unfolding st' class_inv_def using assms(1) seta ne
      by (auto simp: class_inv_def)
  next
    case n
    with assms Some show ?thesis by (simp add: class_try_description_def)
  qed
qed

lemma class_try_method_total: "\<exists>st'. class_try_method ps l (c, ls) = Inr st' \<and> cls_name (fst st') = cls_name c"
proof (cases "RE_FUNCTION_SIGNATURE ps l")
  case None
  then show ?thesis by (simp add: class_try_method_None)
next
  case (Some m)
  from class_try_method_Some[OF Some, of c ls] show ?thesis by auto
qed

lemma class_try_description_total:
  assumes "class_inv p (c, ls)"
  shows "\<exists>st'. class_try_description ps p l (c, ls) = Inr st' \<and> cls_name (fst st') = cls_name c"
  using assms
  by (auto simp: class_try_description_def class_inv_def set_last_fn_description_cases
        set_last_attr_description_cases split: option.splits)

lemma class_line_inv:
  assumes "class_inv p st" "class_line ps p l st = Inr st'" "p \<noteq> []"
  shows "class_inv p st' \<and> cls_name (fst st') = cls_name (fst st)"
proof -
  obtain c ls where st: "st = (c, ls)" by (cases st)
  obtain st1 where s1: "class_try_method ps l (c, ls) = Inr st1" and n1: "cls_name (fst st1) = cls_name c"
    using class_try_method_total by blast
  obtain c1 ls1 where st1: "st1 = (c1, ls1)" by (cases st1)
  have i1: "class_inv p (c1, ls1)" using class_try_method_inv assms(1) s1 st st1 by blast
  from assms(2) st s1 st1 obtain st2 where s2: "class_try_attribute ps l (c1, ls1) = Inr st2"
    and s3: "class_try_description ps p l st2 = Inr st'"
    by (auto simp: class_line_def split: sum.splits)
  obtain c2 ls2 where st2: "st2 = (c2, ls2)" by (cases st2)
  have i2: "class_inv p (c2, ls2)" using class_try_attribute_inv i1 s2 st2 by blast
  have n2: "cls_name c2 = cls_name c1"
    using class_try_attribute_cases[of ps l c1 ls1] s2 st2 by auto
  have i3: "class_inv p st'" using class_try_description_inv i2 s3 st2 assms(3) by blast
  have n3: "cls_name (fst st') = cls_name c2"
    using class_try_description_total[OF i2, of ps l] s3 st2 by auto
  show ?thesis using i3 n1 n2 n3 st st1 by simp
qed

lemma class_line_error:
  assumes "class_inv p st" "class_line ps p l st = Inl e"
  shows "e = TypeError"
proof -
  obtain c ls where st: "st = (c, ls)" by (cases st)
  obtain st1 where s1: "class_try_method ps l (c, ls) = Inr st1"
    using class_try_method_total by blast
  obtain c1 ls1 where st1: "st1 = (c1, ls1)" by (cases st1)
  have i1: "class_inv p (c1, ls1)" using class_try_method_inv assms(1) s1 st st1 by blast
  show ?thesis
  proof (cases "class_try_attribute ps l (c1, ls1)")
    case (Inl e')
    with class_try_attribute_cases[of ps l c1 ls1] have "e' = TypeError" by auto
    with Inl assms(2) st s1 st1 show ?thesis by (simp add: class_line_def)
  next
    case (Inr st2)
    obtain c2 ls2 where st2: "st2 = (c2, ls2)" by (cases st2)
    have i2: "class_inv p (c2, ls2)" using class_try_attribute_inv i1 Inr st2 by blast
    from class_try_description_total[OF i2, of ps l] assms(2) st s1 st1 Inr st2
    show ?thesis by (auto simp: class_line_def)
  qed
qed

lemma class_lines_inv:
  assumes "class_lines ps p lines st = Inr st'" "class_inv p st" "p \<noteq> []"
  shows "class_inv p st' \<and> cls_name (fst st') = cls_name (fst st)"
  using assms
proof (induction lines arbitrary: st)
  case Nil
  then show ?case by simp
next
  case (Cons l lines)
  from Cons.prems(1) obtain st1 where s1: "class_line ps p l st = Inr st1"
    and r: "class_lines ps p lines st1 = Inr st'"
    by (auto split: sum.splits)
  from class_line_inv[OF Cons.prems(2) s1 Cons.prems(3)]
  have "class_inv p st1" "cls_name (fst st1) = cls_name (fst st)" by auto
  with Cons.IH[OF r _ Cons.prems(3)] show ?case by simp
qed

lemma class_lines_error:
  assumes "class_lines ps p lines st = Inl e" "class_inv p st" "p \<noteq> []"
  shows "e = TypeError"
  using assms
proof (induction lines arbitrary: st)
  case Nil
  then show ?case by simp
next
  case (Cons l lines)
  show ?case
  proof (cases "class_line ps p l st")
    case (Inl e')
    with Cons.prems(1) class_line_error[OF Cons.prems(2) Inl] show ?thesis by simp
  next
    case (Inr st1)
    with Cons.prems(1) have r: "class_lines ps p lines st1 = Inl e" by simp
    from class_line_inv[OF Cons.prems(2) Inr Cons.prems(3)] have "class_inv p st1" by simp
    from Cons.IH[OF r this Cons.prems(3)] show ?thesis .
  qed
qed


lemma class_inv_initial:
  "class_inv p (\<lparr> parents = x, cls_name = n, cls_description = d, parentNames = pn,
                   methods = [], attributes = [], constructor = None \<rparr>, 0)"
  by (simp add: class_inv_def METHOD_SET_def ATTRIB_SET_def)

lemma LuaClass_init_Inr:
  assumes "LuaClass_init fs ps p = Inr c"
  shows "\<exists>content m n ls. open_read fs p = Inr content \<and> RE_CLASS_NAME ps content = Some m
           \<and> m ''1'' = Some n \<and> cls_name c = Some n \<and> class_inv p (c, ls) \<and> p \<noteq> []"
proof -
  from assms obtain content where o: "open_read fs p = Inr content"
    by (auto simp: LuaClass_init_def split: sum.splits)
  from assms o obtain m where m: "RE_CLASS_NAME ps content = Some m"
    by (auto simp: LuaClass_init_def split: option.splits)
  from assms o m obtain n where n: "m ''1'' = Some n"
    by (auto simp: LuaClass_init_def split: option.splits)
  let ?c0 = "\<lparr> parents = None, cls_name = Some n,
                cls_description = Some (DocDescription_init (n @ '' instance'') (Some p)),
                parentNames = (case RE_INHERITS_FROM ps content of None \<Rightarrow> []
                               | Some inheritedMatcher \<Rightarrow> [inheritedMatcher ''1'']),
                methods = [], attributes = [], constructor = None \<rparr>"
  from assms o m n obtain ls where r: "class_lines ps p (file_lines content) (?c0, 0) = Inr (c, ls)"
    by (auto simp: LuaClass_init_def Let_def split: sum.splits)
  have pne: "p \<noteq> []" using o by (rule open_read_nonempty)
  from class_lines_inv[OF r class_inv_initial pne]
  have "class_inv p (c, ls)" "cls_name c = Some n" by auto
  with o m n pne show ?thesis by blast
qed

lemma LuaClass_init_Inl:
  assumes "LuaClass_init fs ps p = Inl e"
  shows "e = OSError \<and> open_read fs p = Inl OSError
       \<or> e = AttributeError \<and> (\<exists>content. open_read fs p = Inr content \<and> RE_CLASS_NAME ps content = None)
       \<or> e = TypeError \<and> (\<exists>content m. open_read fs p = Inr content \<and> RE_CLASS_NAME ps content = Some m)"
proof (cases "open_read fs p")
  case (Inl e')
  then have "e' = OSError" by (auto simp: open_read_def split: if_splits option.splits)
  with Inl assms show ?thesis by (simp add: LuaClass_init_def)
next
  case (Inr content)
  note o = Inr
  have pne: "p \<noteq> []" using o by (rule open_read_nonempty)
  show ?thesis
  proof (cases "RE_CLASS_NAME ps content")
    case None
    with o assms show ?thesis by (simp add: LuaClass_init_def)
  next
    case (Some m)
    show ?thesis
    proof (cases "m ''1''")
      case None
      with o Some assms show ?thesis by (simp add: LuaClass_init_def)
    next
      case (Some n)
      note n = Some
      let ?c0 = "\<lparr> parents = None, cls_name = Some n,
                cls_description = Some (DocDescription_init (n @ '' instance'') (Some p)),
                parentNames = (case RE_INHERITS_FROM ps content of None \<Rightarrow> []
                               | Some inheritedMatcher \<Rightarrow> [inheritedMatcher ''1'']),
                methods = [], attributes = [], constructor = None \<rparr>"
      from assms o \<open>RE_CLASS_NAME ps content = Some m\<close> n
      have "class_lines ps p (file_lines content) (?c0, 0) = Inl e"
        by (auto simp: LuaClass_init_def Let_def split: sum.splits)
      from class_lines_error[OF this class_inv_initial pne]
      show ?thesis using o \<open>RE_CLASS_NAME ps content = Some m\<close> by simp
    qed
  qed
qed

text \<open>The namespace builder.\<close>

lemma namespace_try_function_cases:
  "namespace_try_function ps l fns =
     Inr (case RE_FUNCTION_SIGNATURE ps l of
            None \<Rightarrow> fns
          | Some m \<Rightarrow> fns @ [\<lparr> fn_name = m ''name'', fn_description = None,
                       parameters = findParameters ps (m ''parameters''),
                       returnType = findReturnval ps (m ''returns'') \<rparr>])"
  by (simp add: namespace_try_function_def LuaFunction_init_line split: option.splits)

definition unlinked :: "LuaFunction list \<Rightarrow> bool" where
  "unlinked fns = (\<forall>f \<in> set fns. \<forall>d. fn_description f = Some d \<longrightarrow> link d = None)"

lemma namespace_line_unlinked:
  assumes "namespace_line ps l fns = Inr fns'" "unlinked fns"
  shows "unlinked fns'"
proof -
  obtain fns1 where f1: "namespace_try_function ps l fns = Inr fns1" and u1: "unlinked fns1"
    using assms(2) by (auto simp: namespace_try_function_cases unlinked_def split: option.splits)
  show ?thesis
  proof (cases "parseDescription ps l")
    case None
    with assms(1) f1 u1 show ?thesis
      by (simp add: namespace_line_def namespace_try_description_def)
  next
    case (Some d)
    with assms(1) f1 have ne: "fns1 \<noteq> []"
      and eq: "fns' = fns1[length fns1 - 1 :=
                       (fns1 ! (length fns1 - 1))\<lparr>fn_description := Some (DocDescription_init d None)\<rparr>]"
      by (auto simp: namespace_line_def namespace_try_description_def set_last_fn_description_cases
            split: if_splits)
    show ?thesis unfolding unlinked_def
    proof (intro ballI allI impI)
      fix f dd assume f: "f \<in> set fns'" and dd: "fn_description f = Some dd"
      from f eq have "f \<in> set fns1 \<or>
          f = (fns1 ! (length fns1 - 1))\<lparr>fn_description := Some (DocDescription_init d None)\<rparr>"
        using set_update_subset_insert[of fns1] by blast
      then show "link dd = None"
        using u1 dd by (auto simp: unlinked_def DocDescription_init_def)
    qed
  qed
qed

lemma namespace_lines_unlinked:
  "namespace_lines ps lines fns = Inr fns' \<Longrightarrow> unlinked fns \<Longrightarrow> unlinked fns'"
proof (induction lines arbitrary: fns)
  case Nil
  then show ?case by simp
next
  case (Cons l lines)
  from Cons.prems(1) obtain fns1 where s1: "namespace_line ps l fns = Inr fns1"
    and r: "namespace_lines ps lines fns1 = Inr fns'"
    by (auto split: sum.splits)
  from Cons.IH[OF r namespace_line_unlinked[OF s1 Cons.prems(2)]] show ?case .
qed

lemma LuaNamespace_init_unlinked:
  assumes "LuaNamespace_init fs ps p = Inr ns"
  shows "unlinked (ns_functions ns)"
proof -
  from assms obtain content where r: "namespace_lines ps (file_lines content) [] = Inr (ns_functions ns)"
    by (auto simp: LuaNamespace_init_def split: sum.splits)
  from namespace_lines_unlinked[OF r] show ?thesis by (simp add: unlinked_def)
qed

lemma demo_class_built: "LuaClass_init demo_fs demo_patterns ''doc/class_foo.html'' = Inr demo_class"
  by code_simp

lemma demo_namespace_built:
  "LuaNamespace_init demo_fs demo_patterns ''doc/namespace_bar.html'' = Inr demo_namespace"
  by code_simp

subsection \<open>Documentation links\<close>

text \<open>
  Claim C8.  A \<open>DocDescription\<close> built with a source file (a path, which is not
  empty) has as its link the documentation base URL followed by the basename of that
  path; one built without a source file has no link.  Every description the class builder
  attaches to a method or an attribute carries the link of the class file, and every
  description the namespace builder attaches to a function carries none.
\<close>

theorem DocDescription_link:
  "(docLink \<noteq> [] \<longrightarrow>
      link (DocDescription_init descr (Some docLink)) =
        Some (''https://moddingofisaac.com/docs/'' @ basename docLink))
   \<and> link (DocDescription_init descr None) = None
   \<and> (LuaClass_init fs ps classPath = Inr c \<longrightarrow>
        (\<forall>m \<in> set (methods c). \<forall>d. fn_description m = Some d \<longrightarrow>
           link d = Some (''https://moddingofisaac.com/docs/'' @ basename classPath))
      \<and> (\<forall>a \<in> set (attributes c). \<forall>d. attr_description a = Some d \<longrightarrow>
           link d = Some (''https://moddingofisaac.com/docs/'' @ basename classPath)))
   \<and> (LuaNamespace_init fs ps namespacePath = Inr ns \<longrightarrow>
        (\<forall>f \<in> set (ns_functions ns). \<forall>d. fn_description f = Some d \<longrightarrow> link d = None))"
proof (intro conjI impI)
  assume "docLink \<noteq> []"
  then show "link (DocDescription_init descr (Some docLink)) =
        Some (''https://moddingofisaac.com/docs/'' @ basename docLink)"
    by (simp add: DocDescription_init_def)
next
  show "link (DocDescription_init descr None) = None"
    by (simp add: DocDescription_init_def)
next
  assume c: "LuaClass_init fs ps classPath = Inr c"
  from LuaClass_init_Inr[OF c] obtain ls where "class_inv classPath (c, ls)" by blast
  then show "\<forall>m \<in> set (methods c). \<forall>d. fn_description m = Some d \<longrightarrow>
           link d = Some (''https://moddingofisaac.com/docs/'' @ basename classPath)"
    by (simp add: class_inv_def doc_url_def)
next
  assume c: "LuaClass_init fs ps classPath = Inr c"
  from LuaClass_init_Inr[OF c] obtain ls where "class_inv classPath (c, ls)" by blast
  then show "\<forall>a \<in> set (attributes c). \<forall>d. attr_description a = Some d \<longrightarrow>
           link d = Some (''https://moddingofisaac.com/docs/'' @ basename classPath)"
    by (simp add: class_inv_def doc_url_def)
next
  assume "LuaNamespace_init fs ps namespacePath = Inr ns"
  from LuaNamespace_init_unlinked[OF this]
  show "\<forall>f \<in> set (ns_functions ns). \<forall>d. fn_description f = Some d \<longrightarrow> link d = None"
    by (simp add: unlinked_def)
qed

theorem DocDescription_link_witness:
  "link (DocDescription_init ''makes a foo'' (Some ''doc/class_foo.html'')) =
     Some ''https://moddingofisaac.com/docs/class_foo.html''
   \<and> LuaClass_init demo_fs demo_patterns ''doc/class_foo.html'' = Inr demo_class
   \<and> map_option link (fn_description (methods demo_class ! 0)) =
       Some (Some ''https://moddingofisaac.com/docs/class_foo.html'')
   \<and> map_option link (attr_description (attributes demo_class ! 0)) =
       Some (Some ''https://moddingofisaac.com/docs/class_foo.html'')
   \<and> LuaNamespace_init demo_fs demo_patterns ''doc/namespace_bar.html'' = Inr demo_namespace
   \<and> map_option link (fn_description (ns_functions demo_namespace ! 0)) = Some None"
proof -
  have p: "''doc/class_foo.html'' \<noteq> []" by simp
  have b: "basename ''doc/class_foo.html'' = ''class_foo.html''" by code_simp
  note t = DocDescription_link[where docLink = "''doc/class_foo.html''" and descr = "''makes a foo''"
      and fs = demo_fs and ps = demo_patterns and classPath = "''doc/class_foo.html''"
      and c = demo_class and namespacePath = "''doc/namespace_bar.html''" and ns = demo_namespace]
  from t p b have l: "link (DocDescription_init ''makes a foo'' (Some ''doc/class_foo.html'')) =
     Some ''https://moddingofisaac.com/docs/class_foo.html''" by simp
  have m0: "methods demo_class ! 0 \<in> set (methods demo_class)"
    and a0: "attributes demo_class ! 0 \<in> set (attributes demo_class)"
    and f0: "ns_functions demo_namespace ! 0 \<in> set (ns_functions demo_namespace)"
    by (simp_all add: demo_class_def demo_namespace_def)
  obtain d1 where d1: "fn_description (methods demo_class ! 0) = Some d1"
    by (simp add: demo_class_def)
  obtain d2 where d2: "attr_description (attributes demo_class ! 0) = Some d2"
    by (simp add: demo_class_def)
  obtain d3 where d3: "fn_description (ns_functions demo_namespace ! 0) = Some d3"
    by (simp add: demo_namespace_def)
  from t demo_class_built m0 d1 b have "link d1 = Some ''https://moddingofisaac.com/docs/class_foo.html''"
    by auto
  moreover from t demo_class_built a0 d2 b have "link d2 = Some ''https://moddingofisaac.com/docs/class_foo.html''"
    by auto
  moreover from t demo_namespace_built f0 d3 have "link d3 = None"
    by auto
  ultimately show ?thesis using l d1 d2 d3 demo_class_built demo_namespace_built by simp
qed

subsection \<open>Methods and the constructor\<close>

text \<open>The names of the function signatures found in a list of lines, in order.\<close>

definition signature_names :: "patterns \<Rightarrow> string list \<Rightarrow> pystr list" where
  "signature_names ps lines =
     concat (map (\<lambda>l. case RE_FUNCTION_SIGNATURE ps l of None \<Rightarrow> [] | Some m \<Rightarrow> [m ''name'']) lines)"

lemma class_try_method_names:
  assumes "class_try_method ps l (c, ls) = Inr (c', ls')"
  shows "map fn_name (methods c') = map fn_name (methods c) @ signature_names ps [l]"
proof (cases "RE_FUNCTION_SIGNATURE ps l")
  case None
  with assms class_try_method_None[OF None, of "(c, ls)"] show ?thesis
    by (simp add: signature_names_def)
next
  case (Some m)
  from class_try_method_Some[OF Some, of c ls] assms Some show ?thesis
    by (auto simp: signature_names_def)
qed

lemma class_try_attribute_methods:
  assumes "class_try_attribute ps l (c, ls) = Inr (c', ls')"
  shows "methods c' = methods c"
  using class_try_attribute_cases[of ps l c ls] assms by auto

lemma map_update_last_same:
  "(map f xs)[length xs - Suc 0 := f (xs ! (length xs - Suc 0))] = map f xs"
  by (cases "xs = []") (simp_all add: map_update[symmetric])

lemma class_try_description_names:
  assumes "class_try_description ps p l (c, ls) = Inr (c', ls')"
  shows "map fn_name (methods c') = map fn_name (methods c)"
  using assms
  by (auto simp: class_try_description_def set_last_fn_description_cases
        set_last_attr_description_cases map_update map_update_last_same
        split: option.splits if_splits)

lemma class_line_names:
  assumes "class_line ps p l (c, ls) = Inr (c', ls')"
  shows "map fn_name (methods c') = map fn_name (methods c) @ signature_names ps [l]"
proof -
  from assms obtain c1 ls1 c2 ls2 where s1: "class_try_method ps l (c, ls) = Inr (c1, ls1)"
    and s2: "class_try_attribute ps l (c1, ls1) = Inr (c2, ls2)"
    and s3: "class_try_description ps p l (c2, ls2) = Inr (c', ls')"
    by (auto simp: class_line_def split: sum.splits)
  show ?thesis
    using class_try_method_names[OF s1] class_try_attribute_methods[OF s2]
      class_try_description_names[OF s3] by simp
qed

lemma class_lines_names:
  "class_lines ps p lines (c, ls) = Inr (c', ls') \<Longrightarrow>
     map fn_name (methods c') = map fn_name (methods c) @ signature_names ps lines"
proof (induction lines arbitrary: c ls)
  case Nil
  then show ?case by (simp add: signature_names_def)
next
  case (Cons l lines)
  from Cons.prems obtain c1 ls1 where s1: "class_line ps p l (c, ls) = Inr (c1, ls1)"
    and r: "class_lines ps p lines (c1, ls1) = Inr (c', ls')"
    by (auto split: sum.splits)
  from Cons.IH[OF r] class_line_names[OF s1] show ?case
    by (simp add: signature_names_def)
qed

lemma LuaClass_init_names:
  assumes "LuaClass_init fs ps p = Inr c" "open_read fs p = Inr content"
  shows "map fn_name (methods c) = signature_names ps (file_lines content)"
proof -
  from LuaClass_init_Inr[OF assms(1)] assms(2) obtain m n where
    m: "RE_CLASS_NAME ps content = Some m" and n: "m ''1'' = Some n" by auto
  let ?c0 = "\<lparr> parents = None, cls_name = Some n,
                cls_description = Some (DocDescription_init (n @ '' instance'') (Some p)),
                parentNames = (case RE_INHERITS_FROM ps content of None \<Rightarrow> []
                               | Some inheritedMatcher \<Rightarrow> [inheritedMatcher ''1'']),
                methods = [], attributes = [], constructor = None \<rparr>"
  from assms m n obtain ls where "class_lines ps p (file_lines content) (?c0, 0) = Inr (c, ls)"
    by (auto simp: LuaClass_init_def Let_def split: sum.splits)
  from class_lines_names[OF this] show ?thesis by simp
qed

text \<open>
  Claim C6.  The methods of a built class are the signature matches of its lines, one
  entry each and in file order, so every method named like the class is an entry of its
  own.  The recorded constructor is the last of them: it has the class name, no later
  method has, and a class without such a method records none (with methods
  \<open>[foo, bar, foo]\<close> in a class \<open>foo\<close> it is the entry at index 2).  Its return
  type is the type built from the class name with the static flag.
\<close>

theorem constructor_is_last_match:
  assumes "LuaClass_init fs ps classPath = Inr c"
  shows "\<exists>content n. open_read fs classPath = Inr content \<and> cls_name c = Some n
     \<and> map fn_name (methods c) = signature_names ps (file_lines content)
     \<and> (case constructor c of
          None \<Rightarrow> Some n \<notin> set (map fn_name (methods c))
        | Some i \<Rightarrow> i < length (methods c) \<and> fn_name (methods c ! i) = Some n
                   \<and> (\<forall>j. i < j \<and> j < length (methods c) \<longrightarrow> fn_name (methods c ! j) \<noteq> Some n)
                   \<and> returnType (methods c ! i) = LuaType_init (HintStr n) False True
                   \<and> isStatic (returnType (methods c ! i))
                   \<and> (n \<noteq> [] \<longrightarrow> type_name (returnType (methods c ! i)) = Some n))"
proof -
  from LuaClass_init_Inr[OF assms] obtain content m n ls where
    o: "open_read fs classPath = Inr content" and n: "cls_name c = Some n"
    and inv: "class_inv classPath (c, ls)" by blast
  from inv n have a: "\<forall>i < length (methods c). fn_name (methods c ! i) = Some n \<longrightarrow>
            (\<exists>j. constructor c = Some j \<and> i \<le> j) \<and>
            returnType (methods c ! i) = LuaType_init (HintStr n) False True"
    and b: "\<forall>j. constructor c = Some j \<longrightarrow> j < length (methods c) \<and> fn_name (methods c ! j) = Some n"
    by (auto simp: class_inv_def)
  have rt: "isStatic (LuaType_init (HintStr n) False True)
            \<and> (n \<noteq> [] \<longrightarrow> type_name (LuaType_init (HintStr n) False True) = Some n)"
    by (simp add: LuaType_init_def initFlat_def)
  have "(case constructor c of
          None \<Rightarrow> Some n \<notin> set (map fn_name (methods c))
        | Some i \<Rightarrow> i < length (methods c) \<and> fn_name (methods c ! i) = Some n
                   \<and> (\<forall>j. i < j \<and> j < length (methods c) \<longrightarrow> fn_name (methods c ! j) \<noteq> Some n)
                   \<and> returnType (methods c ! i) = LuaType_init (HintStr n) False True
                   \<and> isStatic (returnType (methods c ! i))
                   \<and> (n \<noteq> [] \<longrightarrow> type_name (returnType (methods c ! i)) = Some n))"
  proof (cases "constructor c")
    case None
    have "Some n \<notin> set (map fn_name (methods c))"
    proof
      assume "Some n \<in> set (map fn_name (methods c))"
      then obtain i where "i < length (methods c)" "fn_name (methods c ! i) = Some n"
        by (auto simp: in_set_conv_nth)
      with a None show False by auto
    qed
    with None show ?thesis by simp
  next
    case (Some i)
    with b have i: "i < length (methods c)" "fn_name (methods c ! i) = Some n" by auto
    with a have r: "returnType (methods c ! i) = LuaType_init (HintStr n) False True" by blast
    have l: "\<forall>j. i < j \<and> j < length (methods c) \<longrightarrow> fn_name (methods c ! j) \<noteq> Some n"
    proof (intro allI impI notI)
      fix j assume j: "i < j \<and> j < length (methods c)" and e: "fn_name (methods c ! j) = Some n"
      with a obtain k where "constructor c = Some k" "j \<le> k" by blast
      with Some j show False by simp
    qed
    from Some i r l rt show ?thesis by simp
  qed
  with o n LuaClass_init_names[OF assms o] show ?thesis by blast
qed

theorem constructor_is_last_match_witness:
  "LuaClass_init demo_fs demo_patterns ''doc/class_foo.html'' = Inr demo_class
   \<and> map fn_name (methods demo_class) = [Some ''foo'', Some ''bar'', Some ''foo'']
   \<and> constructor demo_class = Some 2
   \<and> cls_name demo_class = Some ''foo''
   \<and> returnType (methods demo_class ! 2) = \<lparr> type_name = Some ''foo'', isConst = False, isStatic = True \<rparr>"
proof -
  from constructor_is_last_match[OF demo_class_built]
  obtain content n where n: "cls_name demo_class = Some n"
    and c: "(case constructor demo_class of
          None \<Rightarrow> Some n \<notin> set (map fn_name (methods demo_class))
        | Some i \<Rightarrow> i < length (methods demo_class) \<and> fn_name (methods demo_class ! i) = Some n
                   \<and> (\<forall>j. i < j \<and> j < length (methods demo_class) \<longrightarrow> fn_name (methods demo_class ! j) \<noteq> Some n)
                   \<and> returnType (methods demo_class ! i) = LuaType_init (HintStr n) False True
                   \<and> isStatic (returnType (methods demo_class ! i))
                   \<and> (n \<noteq> [] \<longrightarrow> type_name (returnType (methods demo_class ! i)) = Some n))"
    by blast
  have nm: "cls_name demo_class = Some ''foo''" and k: "constructor demo_class = Some 2"
    and ms: "map fn_name (methods demo_class) = [Some ''foo'', Some ''bar'', Some ''foo'']"
    by (simp_all add: demo_class_def)
  from n nm have "n = ''foo''" by simp
  with c k have "returnType (methods demo_class ! 2) = LuaType_init (HintStr ''foo'') False True"
    by simp
  then have "returnType (methods demo_class ! 2) = \<lparr> type_name = Some ''foo'', isConst = False, isStatic = True \<rparr>"
    by (simp add: LuaType_init_def initFlat_def)
  with nm k ms demo_class_built show ?thesis by simp
qed

subsection \<open>Failure and success of the class builder\<close>

lemma class_line_error_attr:
  assumes "class_inv p st" "class_line ps p l st = Inl e"
  shows "LuaAttribute_init ps l = Inl TypeError"
proof -
  obtain c ls where st: "st = (c, ls)" by (cases st)
  obtain st1 where s1: "class_try_method ps l (c, ls) = Inr st1"
    using class_try_method_total by blast
  obtain c1 ls1 where st1: "st1 = (c1, ls1)" by (cases st1)
  have i1: "class_inv p (c1, ls1)" using class_try_method_inv assms(1) s1 st st1 by blast
  show ?thesis
  proof (cases "class_try_attribute ps l (c1, ls1)")
    case (Inl e')
    then show ?thesis
      by (auto simp: class_try_attribute_def split: sum.splits if_splits
            dest: LuaAttribute_init_error)
  next
    case (Inr st2)
    obtain c2 ls2 where st2: "st2 = (c2, ls2)" by (cases st2)
    have i2: "class_inv p (c2, ls2)" using class_try_attribute_inv i1 Inr st2 by blast
    from class_try_description_total[OF i2, of ps l] assms(2) st s1 st1 Inr st2
    show ?thesis by (auto simp: class_line_def)
  qed
qed

lemma class_lines_succeed:
  assumes "class_inv p st" "p \<noteq> []" "\<forall>l \<in> set lines. LuaAttribute_init ps l \<noteq> Inl TypeError"
  shows "\<exists>st'. class_lines ps p lines st = Inr st'"
  using assms
proof (induction lines arbitrary: st)
  case Nil
  then show ?case by simp
next
  case (Cons l lines)
  show ?case
  proof (cases "class_line ps p l st")
    case (Inl e)
    from class_line_error_attr[OF Cons.prems(1) Inl] Cons.prems(3) show ?thesis by simp
  next
    case (Inr st1)
    from class_line_inv[OF Cons.prems(1) Inr Cons.prems(2)] have "class_inv p st1" by simp
    from Cons.IH[OF this Cons.prems(2)] Cons.prems(3) Inr show ?thesis by simp
  qed
qed

lemma LuaClass_init_succeeds:
  assumes "open_read fs p = Inr content" "RE_CLASS_NAME ps content = Some m" "m ''1'' = Some n"
    and "\<forall>l \<in> set (file_lines content). LuaAttribute_init ps l \<noteq> Inl TypeError"
  shows "\<exists>c. LuaClass_init fs ps p = Inr c \<and> cls_name c = Some n"
proof -
  have pne: "p \<noteq> []" using assms(1) by (rule open_read_nonempty)
  let ?c0 = "\<lparr> parents = None, cls_name = Some n,
                cls_description = Some (DocDescription_init (n @ '' instance'') (Some p)),
                parentNames = (case RE_INHERITS_FROM ps content of None \<Rightarrow> []
                               | Some inheritedMatcher \<Rightarrow> [inheritedMatcher ''1'']),
                methods = [], attributes = [], constructor = None \<rparr>"
  from class_lines_succeed[OF class_inv_initial pne assms(4)]
  obtain st' where "class_lines ps p (file_lines content) (?c0, 0) = Inr st'" by blast
  with assms(1-3) obtain c where c: "LuaClass_init fs ps p = Inr c"
    by (cases st') (simp add: LuaClass_init_def Let_def)
  from LuaClass_init_Inr[OF c] assms(1-3) have "cls_name c = Some n" by auto
  with c show ?thesis by blast
qed


text \<open>
  Claim C2, as amended.  A readable file without a class-name marker makes
  \<open>LuaClass\<close> fail with the \<open>AttributeError\<close> of \<open>.group\<close> on the failed
  search; the builder never raises \<open>UpdatedDocError\<close> and never lets a field-level
  mismatch escape.  A class that is built has a name that is not \<open>None\<close>, the
  captured group; and a readable file with a marker that captures a name, none of whose
  lines makes the attribute parser raise \<open>TypeError\<close>, is built, whatever its file
  name.
\<close>

theorem class_without_marker:
  "(open_read fs classPath = Inr content \<and> RE_CLASS_NAME ps content = None \<longrightarrow>
      LuaClass_init fs ps classPath = Inl AttributeError)
   \<and> LuaClass_init fs ps classPath \<noteq> Inl UpdatedDocError
   \<and> LuaClass_init fs ps classPath \<noteq> Inl InvalidFunctionRematcher
   \<and> LuaClass_init fs ps classPath \<noteq> Inl InvalidAttributeRematcher
   \<and> (LuaClass_init fs ps classPath = Inr c \<longrightarrow>
        (\<exists>content' m n. open_read fs classPath = Inr content' \<and> RE_CLASS_NAME ps content' = Some m
           \<and> m ''1'' = Some n \<and> cls_name c = Some n))
   \<and> (open_read fs classPath = Inr content \<and> RE_CLASS_NAME ps content = Some m \<and> m ''1'' = Some n
        \<and> (\<forall>l \<in> set (file_lines content). LuaAttribute_init ps l \<noteq> Inl TypeError) \<longrightarrow>
        (\<exists>c'. LuaClass_init fs ps classPath = Inr c' \<and> cls_name c' = Some n))"
proof (intro conjI impI)
  assume "open_read fs classPath = Inr content \<and> RE_CLASS_NAME ps content = None"
  then show "LuaClass_init fs ps classPath = Inl AttributeError"
    by (simp add: LuaClass_init_def)
next
  show "LuaClass_init fs ps classPath \<noteq> Inl UpdatedDocError"
    using LuaClass_init_Inl[of fs ps classPath UpdatedDocError] by auto
next
  show "LuaClass_init fs ps classPath \<noteq> Inl InvalidFunctionRematcher"
    using LuaClass_init_Inl[of fs ps classPath InvalidFunctionRematcher] by auto
next
  show "LuaClass_init fs ps classPath \<noteq> Inl InvalidAttributeRematcher"
    using LuaClass_init_Inl[of fs ps classPath InvalidAttributeRematcher] by auto
next
  assume "LuaClass_init fs ps classPath = Inr c"
  from LuaClass_init_Inr[OF this]
  show "\<exists>content' m n. open_read fs classPath = Inr content' \<and> RE_CLASS_NAME ps content' = Some m
           \<and> m ''1'' = Some n \<and> cls_name c = Some n"
    by blast
next
  assume "open_read fs classPath = Inr content \<and> RE_CLASS_NAME ps content = Some m \<and> m ''1'' = Some n
        \<and> (\<forall>l \<in> set (file_lines content). LuaAttribute_init ps l \<noteq> Inl TypeError)"
  then show "\<exists>c'. LuaClass_init fs ps classPath = Inr c' \<and> cls_name c' = Some n"
    using LuaClass_init_succeeds by blast
qed

text \<open>
  The claim as stated fails: a file named like a class file, without a marker, ends in
  \<open>AttributeError\<close>, not in the document-format error, and yields no name.
\<close>

theorem class_without_marker_counterexample:
  "isClassFile ''class_bare.html''
   \<and> open_read other_fs ''old/class_bare.html'' = Inr (''Fbar'' @ nl)
   \<and> RE_CLASS_NAME demo_patterns (''Fbar'' @ nl) = None
   \<and> LuaClass_init other_fs demo_patterns ''old/class_bare.html'' = Inl AttributeError
   \<and> LuaClass_init other_fs demo_patterns ''old/class_bare.html'' \<noteq> Inl UpdatedDocError"
proof -
  have a: "isClassFile ''class_bare.html''" by code_simp
  have b: "open_read other_fs ''old/class_bare.html'' = Inr (''Fbar'' @ nl)" by code_simp
  have c: "RE_CLASS_NAME demo_patterns (''Fbar'' @ nl) = None"
    by (simp add: demo_patterns_def tagged_def nl_def)
  from b c have d: "LuaClass_init other_fs demo_patterns ''old/class_bare.html'' = Inl AttributeError"
    by (simp add: LuaClass_init_def)
  from a b c d show ?thesis by simp
qed

theorem class_without_marker_witness:
  "LuaClass_init other_fs demo_patterns ''old/class_bare.html'' = Inl AttributeError
   \<and> LuaClass_init demo_fs demo_patterns ''doc/class_foo.html'' = Inr demo_class
   \<and> cls_name demo_class = Some ''foo''"
proof -
  have b: "open_read other_fs ''old/class_bare.html'' = Inr (''Fbar'' @ nl)" by code_simp
  have c: "RE_CLASS_NAME demo_patterns (''Fbar'' @ nl) = None"
    by (simp add: demo_patterns_def tagged_def nl_def)
  from class_without_marker[of other_fs "''old/class_bare.html''" "''Fbar'' @ nl" demo_patterns] b c
  have 1: "LuaClass_init other_fs demo_patterns ''old/class_bare.html'' = Inl AttributeError"
    by blast
  obtain content where o: "open_read demo_fs ''doc/class_foo.html'' = Inr content"
    and t: "content = ''Cfoo'' @ [CHR 0x0A] @ ''Ffoo'' @ [CHR 0x0A] @ ''Dmakes a foo'' @ [CHR 0x0A] @
             ''Asize'' @ [CHR 0x0A] @ ''Dthe size'' @ [CHR 0x0A] @ ''Fbar'' @ [CHR 0x0A] @
             ''Ffoo'' @ [CHR 0x0A]"
    by (simp add: open_read_def demo_fs_def)
  obtain m where m: "RE_CLASS_NAME demo_patterns content = Some m" "m ''1'' = Some ''foo''"
    by (simp add: t demo_patterns_def tagged_def rest_of_def)
  have ok: "\<forall>l \<in> set (file_lines content). LuaAttribute_init demo_patterns l \<noteq> Inl TypeError"
    by (simp add: t LuaAttribute_init_def demo_patterns_def tagged_def tryMatchNone_def)
  from class_without_marker[of demo_fs "''doc/class_foo.html''" content demo_patterns demo_class m "''foo''"]
    o m ok
  obtain c' where "LuaClass_init demo_fs demo_patterns ''doc/class_foo.html'' = Inr c'"
    "cls_name c' = Some ''foo''" by blast
  with demo_class_built have 2: "cls_name demo_class = Some ''foo''" by simp
  from 1 2 demo_class_built show ?thesis by simp
qed

subsection \<open>Description attachment\<close>





lemma class_try_description_unset:
  "class_try_description ps classPath l (c, 0) = Inr (c, 0)"
  by (simp add: class_try_description_def METHOD_SET_def ATTRIB_SET_def split: option.splits)



subsection \<open>The namespace builder\<close>

text \<open>
  A description line comes before every signature line: some line has a description and
  neither it nor any line before it is a function signature.
\<close>

fun orphan_description :: "patterns \<Rightarrow> string list \<Rightarrow> bool" where
  "orphan_description ps [] = False"
| "orphan_description ps (l # ls) =
     (RE_FUNCTION_SIGNATURE ps l = None \<and>
      (parseDescription ps l \<noteq> None \<or> orphan_description ps ls))"

lemma orphan_description_index:
  "orphan_description ps lines \<longleftrightarrow>
     (\<exists>i < length lines. parseDescription ps (lines ! i) \<noteq> None
        \<and> (\<forall>j \<le> i. RE_FUNCTION_SIGNATURE ps (lines ! j) = None))"
proof (induction lines)
  case Nil
  then show ?case by simp
next
  case (Cons l ls)
  show ?case
  proof
    assume a: "orphan_description ps (l # ls)"
    then have s: "RE_FUNCTION_SIGNATURE ps l = None" by simp
    show "\<exists>i < length (l # ls). parseDescription ps ((l # ls) ! i) \<noteq> None
        \<and> (\<forall>j \<le> i. RE_FUNCTION_SIGNATURE ps ((l # ls) ! j) = None)"
    proof (cases "parseDescription ps l \<noteq> None")
      case True
      with s show ?thesis by (intro exI[of _ 0]) simp
    next
      case False
      with a have "orphan_description ps ls" by simp
      with Cons.IH obtain i where i: "i < length ls" "parseDescription ps (ls ! i) \<noteq> None"
        "\<forall>j \<le> i. RE_FUNCTION_SIGNATURE ps (ls ! j) = None" by blast
      have "\<forall>j \<le> Suc i. RE_FUNCTION_SIGNATURE ps ((l # ls) ! j) = None"
      proof (intro allI impI)
        fix j assume "j \<le> Suc i"
        with s i(3) show "RE_FUNCTION_SIGNATURE ps ((l # ls) ! j) = None"
          by (cases j) simp_all
      qed
      with i(1,2) show ?thesis by (intro exI[of _ "Suc i"]) simp
    qed
  next
    assume "\<exists>i < length (l # ls). parseDescription ps ((l # ls) ! i) \<noteq> None
        \<and> (\<forall>j \<le> i. RE_FUNCTION_SIGNATURE ps ((l # ls) ! j) = None)"
    then obtain i where i: "i < length (l # ls)" "parseDescription ps ((l # ls) ! i) \<noteq> None"
      "\<forall>j \<le> i. RE_FUNCTION_SIGNATURE ps ((l # ls) ! j) = None" by blast
    from i(3) have s: "RE_FUNCTION_SIGNATURE ps l = None" by force
    show "orphan_description ps (l # ls)"
    proof (cases i)
      case 0
      with i(2) s show ?thesis by simp
    next
      case (Suc k)
      with i have "k < length ls" "parseDescription ps (ls ! k) \<noteq> None" by simp_all
      moreover have "\<forall>j \<le> k. RE_FUNCTION_SIGNATURE ps (ls ! j) = None"
      proof (intro allI impI)
        fix j assume "j \<le> k"
        then have "Suc j \<le> i" using Suc by simp
        with i(3) have "RE_FUNCTION_SIGNATURE ps ((l # ls) ! Suc j) = None" by blast
        then show "RE_FUNCTION_SIGNATURE ps (ls ! j) = None" by simp
      qed
      ultimately have "orphan_description ps ls" using Cons.IH by blast
      with s show ?thesis by simp
    qed
  qed
qed

lemma namespace_line_nonempty:
  assumes "fns \<noteq> []"
  shows "\<exists>fns'. namespace_line ps l fns = Inr fns' \<and> fns' \<noteq> []"
  using assms
  by (auto simp: namespace_line_def namespace_try_function_cases namespace_try_description_def
        set_last_fn_description_def split: option.splits)

lemma namespace_lines_nonempty:
  "fns \<noteq> [] \<Longrightarrow> \<exists>fns'. namespace_lines ps lines fns = Inr fns'"
proof (induction lines arbitrary: fns)
  case Nil
  then show ?case by simp
next
  case (Cons l lines)
  from namespace_line_nonempty[OF Cons.prems, of ps l]
  obtain fns1 where "namespace_line ps l fns = Inr fns1" "fns1 \<noteq> []" by blast
  with Cons.IH[of fns1] show ?case by simp
qed

lemma namespace_line_empty:
  "namespace_line ps l [] =
     (case RE_FUNCTION_SIGNATURE ps l of
        None \<Rightarrow> (case parseDescription ps l of None \<Rightarrow> Inr [] | Some d \<Rightarrow> Inl IndexError)
      | Some m \<Rightarrow> namespace_try_description ps l
                   [\<lparr> fn_name = m ''name'', fn_description = None,
                      parameters = findParameters ps (m ''parameters''),
                      returnType = findReturnval ps (m ''returns'') \<rparr>])"
  by (simp add: namespace_line_def namespace_try_function_cases namespace_try_description_def
        set_last_fn_description_def split: option.splits)

lemma namespace_lines_orphan:
  "orphan_description ps lines \<Longrightarrow> namespace_lines ps lines [] = Inl IndexError"
proof (induction lines)
  case Nil
  then show ?case by simp
next
  case (Cons l lines)
  then show ?case
    by (cases "parseDescription ps l") (auto simp: namespace_line_empty)
qed

lemma namespace_lines_no_orphan:
  "\<not> orphan_description ps lines \<Longrightarrow> \<exists>fns'. namespace_lines ps lines [] = Inr fns'"
proof (induction lines)
  case Nil
  then show ?case by simp
next
  case (Cons l lines)
  show ?case
  proof (cases "RE_FUNCTION_SIGNATURE ps l")
    case None
    with Cons show ?thesis by (auto simp: namespace_line_empty)
  next
    case (Some m)
    have "\<exists>fns1. namespace_line ps l [] = Inr fns1 \<and> fns1 \<noteq> []"
      using Some
      by (cases "parseDescription ps l")
         (simp_all add: namespace_line_empty namespace_try_description_def
            set_last_fn_description_def)
    then obtain fns1 where "namespace_line ps l [] = Inr fns1" "fns1 \<noteq> []" by blast
    with namespace_lines_nonempty[of fns1 ps lines] show ?thesis by auto
  qed
qed

definition funcs_namespace :: LuaNamespace where
  "funcs_namespace =
     \<lparr> ns_name = Some ''_G'',
       ns_functions =
         [\<lparr> fn_name = Some ''print'',
             fn_description = Some \<lparr> description = ''prints'', link = None \<rparr>,
             parameters = [], returnType = nil_type \<rparr>] \<rparr>"

lemma funcs_namespace_built:
  "LuaNamespace_init demo_fs demo_patterns ''doc/group__funcs.html'' = Inr funcs_namespace"
  by code_simp

text \<open>
  Claim C10, as amended.  In a readable namespace file that reaches the line pass (its
  name is found, or it is the global functions file), a line with a description that
  comes before every line with a function signature makes the construction fail with
  \<open>IndexError\<close>: the builder indexes the empty list of functions.  The class builder
  drops such a description and goes on.
\<close>

theorem namespace_orphan_description:
  assumes "open_read fs namespacePath = Inr content"
    and "RE_NAMESPACE_NAME ps content \<noteq> None \<or> basename namespacePath = ''group__funcs.html''"
    and "i < length (file_lines content)"
    and "parseDescription ps (file_lines content ! i) \<noteq> None"
    and "\<forall>j \<le> i. RE_FUNCTION_SIGNATURE ps (file_lines content ! j) = None"
  shows "LuaNamespace_init fs ps namespacePath = Inl IndexError
         \<and> class_try_description ps classPath (file_lines content ! i) (c, 0) = Inr (c, 0)"
proof -
  from assms(3-5) have "orphan_description ps (file_lines content)"
    unfolding orphan_description_index by blast
  then have l: "namespace_lines ps (file_lines content) [] = Inl IndexError"
    by (rule namespace_lines_orphan)
  from assms(2) have "\<exists>name. namespace_name ps namespacePath content = Inr name"
    by (cases "RE_NAMESPACE_NAME ps content") (auto simp: namespace_name_def)
  then obtain name where "namespace_name ps namespacePath content = Inr name" ..
  with assms(1) l have "LuaNamespace_init fs ps namespacePath = Inl IndexError"
    by (simp add: LuaNamespace_init_def)
  then show ?thesis by (simp add: class_try_description_unset)
qed

text \<open>
  The claim as stated, for every namespace file, fails: in a namespace file without a
  name marker the failed search for the name ends the construction with
  \<open>AttributeError\<close> before any line is read.
\<close>

theorem namespace_orphan_description_counterexample:
  "isNamespaceFile ''namespace_lost.html''
   \<and> open_read other_fs ''old/namespace_lost.html'' = Inr (''Dorphan'' @ nl @ ''Fsin'' @ nl)
   \<and> file_lines (''Dorphan'' @ nl @ ''Fsin'' @ nl) = [''Dorphan'' @ nl, ''Fsin'' @ nl]
   \<and> parseDescription demo_patterns (''Dorphan'' @ nl) = Some ''orphan''
   \<and> RE_FUNCTION_SIGNATURE demo_patterns (''Dorphan'' @ nl) = None
   \<and> LuaNamespace_init other_fs demo_patterns ''old/namespace_lost.html'' = Inl AttributeError
   \<and> LuaNamespace_init other_fs demo_patterns ''old/namespace_lost.html'' \<noteq> Inl IndexError"
proof -
  have a: "isNamespaceFile ''namespace_lost.html''" by code_simp
  have b: "open_read other_fs ''old/namespace_lost.html'' = Inr (''Dorphan'' @ nl @ ''Fsin'' @ nl)"
    by code_simp
  have c: "file_lines (''Dorphan'' @ nl @ ''Fsin'' @ nl) = [''Dorphan'' @ nl, ''Fsin'' @ nl]"
    by code_simp
  have d: "parseDescription demo_patterns (''Dorphan'' @ nl) = Some ''orphan''"
    by (simp add: nl_def demo_patterns_def tagged_def rest_of_def parseDescription_def
          strip_def isspace_def)
  have e: "RE_FUNCTION_SIGNATURE demo_patterns (''Dorphan'' @ nl) = None"
    by (simp add: nl_def demo_patterns_def tagged_def)
  have f: "LuaNamespace_init other_fs demo_patterns ''old/namespace_lost.html'' = Inl AttributeError"
    by code_simp
  from a b c d e f show ?thesis by simp
qed

theorem namespace_orphan_description_witness:
  "open_read other_fs ''old/namespace_math.html'' = Inr (''Nmath'' @ nl @ ''Dorphan'' @ nl @ ''Fsin'' @ nl)
   \<and> file_lines (''Nmath'' @ nl @ ''Dorphan'' @ nl @ ''Fsin'' @ nl) = [''Nmath'' @ nl, ''Dorphan'' @ nl, ''Fsin'' @ nl]
   \<and> parseDescription demo_patterns (''Dorphan'' @ nl) = Some ''orphan''
   \<and> LuaNamespace_init other_fs demo_patterns ''old/namespace_math.html'' = Inl IndexError"
proof -
  define content where "content = ''Nmath'' @ nl @ ''Dorphan'' @ nl @ ''Fsin'' @ nl"
  have o: "open_read other_fs ''old/namespace_math.html'' = Inr content"
    unfolding content_def by code_simp
  have ls: "file_lines content = [''Nmath'' @ nl, ''Dorphan'' @ nl, ''Fsin'' @ nl]"
    by (simp add: content_def nl_def)
  have n: "RE_NAMESPACE_NAME demo_patterns content \<noteq> None \<or> basename ''old/namespace_math.html'' = ''group__funcs.html''"
    by (simp add: content_def demo_patterns_def tagged_def nl_def)
  have i: "(1::nat) < length (file_lines content)" by (simp add: ls)
  have d: "parseDescription demo_patterns (''Dorphan'' @ nl) = Some ''orphan''"
    by (simp add: nl_def demo_patterns_def tagged_def rest_of_def parseDescription_def
          strip_def isspace_def)
  then have d': "parseDescription demo_patterns (file_lines content ! 1) \<noteq> None"
    by (simp add: ls)
  have s: "\<forall>j \<le> 1. RE_FUNCTION_SIGNATURE demo_patterns (file_lines content ! j) = None"
  proof (intro allI impI)
    fix j :: nat assume "j \<le> 1"
    then have "j = 0 \<or> j = 1" by auto
    then show "RE_FUNCTION_SIGNATURE demo_patterns (file_lines content ! j) = None"
      by (auto simp: ls nl_def demo_patterns_def tagged_def)
  qed
  from namespace_orphan_description[OF o n i d' s]
  have "LuaNamespace_init other_fs demo_patterns ''old/namespace_math.html'' = Inl IndexError"
    by simp
  with o ls d show ?thesis by (simp add: content_def)
qed

lemma LuaNamespace_init_lines:
  assumes "open_read fs p = Inr content" "namespace_name ps p content = Inr name"
  shows "LuaNamespace_init fs ps p =
           (if orphan_description ps (file_lines content) then Inl IndexError
            else Inr \<lparr> ns_name = name,
                       ns_functions = projr (namespace_lines ps (file_lines content) []) \<rparr>)"
proof (cases "orphan_description ps (file_lines content)")
  case True
  from namespace_lines_orphan[OF True] assms True show ?thesis
    by (simp add: LuaNamespace_init_def)
next
  case False
  from namespace_lines_no_orphan[OF False] obtain fns where
    "namespace_lines ps (file_lines content) [] = Inr fns" by blast
  with assms False show ?thesis by (simp add: LuaNamespace_init_def)
qed

text \<open>
  Claim C3, as amended.  When the search for the namespace name fails on a readable file
  whose basename is \<open>group__funcs.html\<close>, the name is set to \<open>_G\<close> and the
  failure is not propagated: a namespace that is built has that name, and it is built
  whenever no description comes before every function signature of the file.  On any
  other readable file the \<open>AttributeError\<close> of the failed search is raised again and
  leaves the constructor; it is not the document-format error.
\<close>

theorem namespace_name_fallback:
  assumes "open_read fs namespacePath = Inr content"
    and "RE_NAMESPACE_NAME ps content = None"
  shows "(basename namespacePath = ''group__funcs.html'' \<longrightarrow>
            namespace_name ps namespacePath content = Inr (Some ''_G'')
            \<and> LuaNamespace_init fs ps namespacePath \<noteq> Inl AttributeError
            \<and> (\<forall>ns. LuaNamespace_init fs ps namespacePath = Inr ns \<longrightarrow> ns_name ns = Some ''_G'')
            \<and> (\<not> orphan_description ps (file_lines content) \<longrightarrow>
                 (\<exists>ns. LuaNamespace_init fs ps namespacePath = Inr ns \<and> ns_name ns = Some ''_G'')))
       \<and> (basename namespacePath \<noteq> ''group__funcs.html'' \<longrightarrow>
            LuaNamespace_init fs ps namespacePath = Inl AttributeError
            \<and> LuaNamespace_init fs ps namespacePath \<noteq> Inl UpdatedDocError)"
proof (intro conjI impI allI)
  assume b: "basename namespacePath = ''group__funcs.html''"
  then show "namespace_name ps namespacePath content = Inr (Some ''_G'')"
    using assms(2) by (simp add: namespace_name_def)
next
  assume b: "basename namespacePath = ''group__funcs.html''"
  then have n: "namespace_name ps namespacePath content = Inr (Some ''_G'')"
    using assms(2) by (simp add: namespace_name_def)
  show "LuaNamespace_init fs ps namespacePath \<noteq> Inl AttributeError"
    by (simp add: LuaNamespace_init_lines[OF assms(1) n])
next
  fix ns
  assume b: "basename namespacePath = ''group__funcs.html''"
    and r: "LuaNamespace_init fs ps namespacePath = Inr ns"
  from b have n: "namespace_name ps namespacePath content = Inr (Some ''_G'')"
    using assms(2) by (simp add: namespace_name_def)
  from r show "ns_name ns = Some ''_G''"
    by (auto simp: LuaNamespace_init_lines[OF assms(1) n] split: if_splits)
next
  assume b: "basename namespacePath = ''group__funcs.html''"
    and o: "\<not> orphan_description ps (file_lines content)"
  from b have n: "namespace_name ps namespacePath content = Inr (Some ''_G'')"
    using assms(2) by (simp add: namespace_name_def)
  from o show "\<exists>ns. LuaNamespace_init fs ps namespacePath = Inr ns \<and> ns_name ns = Some ''_G''"
    by (simp add: LuaNamespace_init_lines[OF assms(1) n])
next
  assume "basename namespacePath \<noteq> ''group__funcs.html''"
  with assms show "LuaNamespace_init fs ps namespacePath = Inl AttributeError"
    by (simp add: LuaNamespace_init_def namespace_name_def)
next
  assume "basename namespacePath \<noteq> ''group__funcs.html''"
  with assms show "LuaNamespace_init fs ps namespacePath \<noteq> Inl UpdatedDocError"
    by (simp add: LuaNamespace_init_def namespace_name_def)
qed

text \<open>
  The claim as stated fails in the kind of the error that propagates: it is
  \<open>AttributeError\<close>, not \<open>UpdatedDocError\<close>.
\<close>

theorem namespace_name_fallback_counterexample:
  "isNamespaceFile ''namespace_bare.html''
   \<and> basename ''old/namespace_bare.html'' = ''namespace_bare.html''
   \<and> open_read other_fs ''old/namespace_bare.html'' = Inr (''Fbaz'' @ nl)
   \<and> RE_NAMESPACE_NAME demo_patterns (''Fbaz'' @ nl) = None
   \<and> LuaNamespace_init other_fs demo_patterns ''old/namespace_bare.html'' = Inl AttributeError
   \<and> LuaNamespace_init other_fs demo_patterns ''old/namespace_bare.html'' \<noteq> Inl UpdatedDocError"
proof -
  have a: "isNamespaceFile ''namespace_bare.html''" by code_simp
  have a': "basename ''old/namespace_bare.html'' = ''namespace_bare.html''" by code_simp
  have b: "open_read other_fs ''old/namespace_bare.html'' = Inr (''Fbaz'' @ nl)" by code_simp
  have c: "RE_NAMESPACE_NAME demo_patterns (''Fbaz'' @ nl) = None"
    by (simp add: demo_patterns_def tagged_def nl_def)
  have d: "LuaNamespace_init other_fs demo_patterns ''old/namespace_bare.html'' = Inl AttributeError"
    by code_simp
  from a a' b c d show ?thesis by simp
qed

theorem namespace_name_fallback_witness:
  "LuaNamespace_init demo_fs demo_patterns ''doc/group__funcs.html'' = Inr funcs_namespace
   \<and> ns_name funcs_namespace = Some ''_G''
   \<and> LuaNamespace_init other_fs demo_patterns ''old/namespace_bare.html'' = Inl AttributeError"
proof -
  have o1: "open_read demo_fs ''doc/group__funcs.html'' = Inr (''Fprint'' @ [CHR 0x0A] @ ''Dprints'' @ [CHR 0x0A])"
    by code_simp
  have n1: "RE_NAMESPACE_NAME demo_patterns (''Fprint'' @ [CHR 0x0A] @ ''Dprints'' @ [CHR 0x0A]) = None"
    by (simp add: demo_patterns_def tagged_def)
  have b1: "basename ''doc/group__funcs.html'' = ''group__funcs.html''" by code_simp
  have q1: "\<not> orphan_description demo_patterns (file_lines (''Fprint'' @ [CHR 0x0A] @ ''Dprints'' @ [CHR 0x0A]))"
    by (simp add: demo_patterns_def tagged_def)
  from namespace_name_fallback[OF o1 n1] b1 q1
  obtain ns where ns: "LuaNamespace_init demo_fs demo_patterns ''doc/group__funcs.html'' = Inr ns \<and>
      ns_name ns = Some ''_G''" by blast
  with funcs_namespace_built have 1: "ns_name funcs_namespace = Some ''_G''" by simp
  have o3: "open_read other_fs ''old/namespace_bare.html'' = Inr (''Fbaz'' @ nl)" by code_simp
  have n3: "RE_NAMESPACE_NAME demo_patterns (''Fbaz'' @ nl) = None"
    by (simp add: demo_patterns_def tagged_def nl_def)
  have b3: "basename ''old/namespace_bare.html'' \<noteq> ''group__funcs.html''" by code_simp
  from namespace_name_fallback[OF o3 n3] b3
  have 3: "LuaNamespace_init other_fs demo_patterns ''old/namespace_bare.html'' = Inl AttributeError"
    by simp
  from 1 3 funcs_namespace_built show ?thesis by simp
qed

section \<open>Properties of the enumerator stream reader\<close>

lemma file_lines_nonempty: "[] \<notin> set (file_lines s)"
  by (induction s) (auto split: list.splits)

lemma open_stream_start:
  assumes "open_stream fs path = Inr f"
  shows "io_pos f = 0 \<and> io_name f = path \<and> [] \<notin> set (io_lines f)"
  using assms file_lines_nonempty
  by (auto simp: open_stream_def split: sum.splits)

lemma readline_line:
  "readline f = (l, f') \<Longrightarrow> l = [] \<or> l \<in> set (io_lines f)"
  by (auto simp: readline_def split: if_splits)

lemma readline_lines: "readline f = (l, f') \<Longrightarrow> io_lines f' = io_lines f"
  by (auto simp: readline_def split: if_splits)

lemma stream_loop_no_marker:
  assumes "\<forall>l \<in> set (io_lines f). RE_ENUM_NAME ps l = None"
    and "curLine = [] \<or> curLine \<in> set (io_lines f)"
    and "n = None"
  shows "\<exists>f'. stream_loop ps f old curLine ms n k = Inr (None, f')"
  using assms
proof (induction ps f old curLine ms n k rule: stream_loop.induct)
  case (1 ps f old curLine ms n k)
  show ?case
  proof (cases "curLine = []")
    case True
    with "1.prems"(3) show ?thesis by simp
  next
    case False
    with "1.prems" have nn: "RE_ENUM_NAME ps curLine = None" by auto
    obtain l' f1 where rl: "readline f = (l', f1)" by (cases "readline f") auto
    from readline_line[OF rl] readline_lines[OF rl] "1.prems"(1)
    have p1: "\<forall>l \<in> set (io_lines f1). RE_ENUM_NAME ps l = None"
      and p2: "l' = [] \<or> l' \<in> set (io_lines f1)" by auto
    show ?thesis
    proof (cases "RE_ENUM_MEMBER ps curLine")
      case None
      from "1.IH"(1)[OF False nn None rl[symmetric] p1 p2 "1.prems"(3)]
      show ?thesis using False nn None rl by simp
    next
      case (Some m)
      from "1.IH"(2)[OF False nn Some refl refl rl[symmetric] p1 p2 "1.prems"(3)]
      show ?thesis using False nn Some rl by (simp add: Let_def)
    qed
  qed
qed

lemma streamInit_no_marker:
  assumes "\<forall>l \<in> set (io_lines f). RE_ENUM_NAME ps l = None"
  shows "\<exists>f'. streamInit ps f = Inr (None, f')"
proof -
  obtain l f1 where rl: "readline f = (l, f1)" by (cases "readline f") auto
  from readline_line[OF rl] readline_lines[OF rl] assms
  have "\<forall>l \<in> set (io_lines f1). RE_ENUM_NAME ps l = None" "l = [] \<or> l \<in> set (io_lines f1)"
    by auto
  from stream_loop_no_marker[OF this refl, of "tell f" "[]" None] rl
  show ?thesis by (simp add: streamInit_def)
qed

text \<open>The enum file of the first tree, opened, and the two enumerators it holds.\<close>

definition color_enum :: LuaEnumerator where
  "color_enum =
     \<lparr> enum_name = ''Color'',
       members = [\<lparr> tag_name = Some ''Red'', tag_value = 0, tag_description = [] \<rparr>,
                  \<lparr> tag_name = Some ''Green'', tag_value = 0, tag_description = [] \<rparr>],
       enum_description =
         \<lparr> description = ''Enum Color'',
           link = Some ''https://moddingofisaac.com/docs/group__enums.html#Color'' \<rparr> \<rparr>"

definition shape_enum :: LuaEnumerator where
  "shape_enum =
     \<lparr> enum_name = ''Shape'',
       members = [\<lparr> tag_name = Some ''Round'', tag_value = 0, tag_description = [] \<rparr>],
       enum_description =
         \<lparr> description = ''Enum Shape'',
           link = Some ''https://moddingofisaac.com/docs/Shape'' \<rparr> \<rparr>"

definition enum_stream :: IO where
  "enum_stream =
     \<lparr> io_name = ''doc/group__enums.html'',
       io_lines = [''EColor'' @ nl, ''MRed'' @ nl, ''MGreen'' @ nl, ''EShape'' @ nl, ''MRound'' @ nl],
       io_pos = 0 \<rparr>"

definition funcs_stream :: IO where
  "funcs_stream =
     \<lparr> io_name = ''doc/group__funcs.html'',
       io_lines = [''Fprint'' @ nl, ''Dprints'' @ nl],
       io_pos = 0 \<rparr>"

lemma enum_stream_open: "open_stream demo_fs ''doc/group__enums.html'' = Inr enum_stream"
  by code_simp

lemma funcs_stream_open: "open_stream demo_fs ''doc/group__funcs.html'' = Inr funcs_stream"
  by code_simp

lemma enum_stream_first:
  "streamInit demo_patterns enum_stream = Inr (Some color_enum, enum_stream\<lparr>io_pos := 3\<rparr>)"
  by code_simp

lemma enum_stream_second:
  "streamInit demo_patterns (enum_stream\<lparr>io_pos := 3\<rparr>) = Inr (Some shape_enum, enum_stream\<lparr>io_pos := 5\<rparr>)"
  by code_simp

text \<open>
  Claim C4.  On a freshly opened file whose lines are an enum-name line, two member
  lines, a second enum-name line and one member line, the first call of the reader
  returns the first enumerator with its two members and leaves the stream at the second
  enum-name line, the second call returns the second enumerator with its one member, and
  the third call returns \<open>None\<close>; the assembler's loop appends exactly these two, in
  file order.  On a file without any enum-name line the first call returns \<open>None\<close>
  and nothing is appended; no error is raised.
\<close>

theorem enumerator_stream_boundary:
  assumes "open_stream fs path = Inr f"
  shows "(io_lines f = [x, m1, m2, y, m3]
          \<and> RE_ENUM_NAME ps x = Some sx \<and> sx ''name'' = Some nx \<and> sx ''link'' = Some lx
          \<and> RE_ENUM_NAME ps m1 = None \<and> RE_ENUM_MEMBER ps m1 = Some t1
          \<and> RE_ENUM_NAME ps m2 = None \<and> RE_ENUM_MEMBER ps m2 = Some t2
          \<and> RE_ENUM_NAME ps y = Some sy \<and> sy ''name'' = Some ny
          \<and> RE_ENUM_NAME ps m3 = None \<and> RE_ENUM_MEMBER ps m3 = Some t3
          \<longrightarrow> (\<exists>e1 e2 f1 f2 f3.
                streamInit ps f = Inr (Some e1, f1) \<and> io_pos f1 = 3
              \<and> streamInit ps f1 = Inr (Some e2, f2)
              \<and> streamInit ps f2 = Inr (None, f3)
              \<and> enum_name e1 = nx \<and> map tag_name (members e1) = [t1 ''name'', t2 ''name'']
              \<and> enum_name e2 = ny \<and> map tag_name (members e2) = [t3 ''name'']
              \<and> drain_enums ps f acc = (None, acc @ [e1, e2])))
       \<and> ((\<forall>l \<in> set (io_lines f). RE_ENUM_NAME ps l = None)
          \<longrightarrow> (\<exists>f'. streamInit ps f = Inr (None, f')) \<and> drain_enums ps f acc = (None, acc))"
proof (intro conjI impI)
  assume h: "io_lines f = [x, m1, m2, y, m3]
          \<and> RE_ENUM_NAME ps x = Some sx \<and> sx ''name'' = Some nx \<and> sx ''link'' = Some lx
          \<and> RE_ENUM_NAME ps m1 = None \<and> RE_ENUM_MEMBER ps m1 = Some t1
          \<and> RE_ENUM_NAME ps m2 = None \<and> RE_ENUM_MEMBER ps m2 = Some t2
          \<and> RE_ENUM_NAME ps y = Some sy \<and> sy ''name'' = Some ny
          \<and> RE_ENUM_NAME ps m3 = None \<and> RE_ENUM_MEMBER ps m3 = Some t3"
  from open_stream_start[OF assms] h have ne: "x \<noteq> []" "m1 \<noteq> []" "m2 \<noteq> []" "y \<noteq> []" "m3 \<noteq> []"
    and p0: "io_pos f = 0" by auto
  define mk where "mk t = \<lparr> tag_name = t ''name'', tag_value = 0,
      tag_description = RE_HTML_REPLACER ps (tryMatchString (Some t) ''desc'') \<rparr>" for t :: rematch
  define e1 where "e1 = LuaEnumerator_init nx (Some (io_name f @ ''#'' @ lx)) [mk t1, mk t2]"
  define e2 where "e2 = LuaEnumerator_init ny (sy ''link'') [mk t3]"
  have 1: "streamInit ps f = Inr (Some e1, f\<lparr>io_pos := 3\<rparr>)"
    using h ne p0
    by (simp add: streamInit_def readline_def tell_def seek_def stream_loop.simps Let_def
          e1_def mk_def eval_nat_numeral)
  have 2: "streamInit ps (f\<lparr>io_pos := 3\<rparr>) = Inr (Some e2, f\<lparr>io_pos := 5\<rparr>)"
    using h ne
    by (simp add: streamInit_def readline_def tell_def seek_def stream_loop.simps Let_def
          e2_def mk_def eval_nat_numeral)
  have 3: "streamInit ps (f\<lparr>io_pos := 5\<rparr>) = Inr (None, f\<lparr>io_pos := 5\<rparr>)"
    using h
    by (simp add: streamInit_def readline_def tell_def stream_loop.simps)
  have d: "drain_enums ps f acc = (None, acc @ [e1, e2])"
    by (subst drain_enums.simps, simp add: 1, subst drain_enums.simps, simp add: 2,
        subst drain_enums.simps, simp add: 3)
  have n1: "enum_name e1 = nx" "map tag_name (members e1) = [t1 ''name'', t2 ''name'']"
    and n2: "enum_name e2 = ny" "map tag_name (members e2) = [t3 ''name'']"
    by (simp_all add: e1_def e2_def mk_def LuaEnumerator_init_def)
  from 1 2 3 d n1 n2 show "\<exists>e1 e2 f1 f2 f3.
                streamInit ps f = Inr (Some e1, f1) \<and> io_pos f1 = 3
              \<and> streamInit ps f1 = Inr (Some e2, f2)
              \<and> streamInit ps f2 = Inr (None, f3)
              \<and> enum_name e1 = nx \<and> map tag_name (members e1) = [t1 ''name'', t2 ''name'']
              \<and> enum_name e2 = ny \<and> map tag_name (members e2) = [t3 ''name'']
              \<and> drain_enums ps f acc = (None, acc @ [e1, e2])"
    by (intro exI[of _ e1] exI[of _ e2] exI[of _ "f\<lparr>io_pos := 3\<rparr>"] exI[of _ "f\<lparr>io_pos := 5\<rparr>"]) simp
next
  assume "\<forall>l \<in> set (io_lines f). RE_ENUM_NAME ps l = None"
  from streamInit_no_marker[OF this] show "\<exists>f'. streamInit ps f = Inr (None, f')" .
next
  assume "\<forall>l \<in> set (io_lines f). RE_ENUM_NAME ps l = None"
  from streamInit_no_marker[OF this] obtain f' where "streamInit ps f = Inr (None, f')" ..
  then show "drain_enums ps f acc = (None, acc)"
    by (subst drain_enums.simps) simp
qed

theorem enumerator_stream_boundary_witness:
  "open_stream demo_fs ''doc/group__enums.html'' = Inr enum_stream
   \<and> streamInit demo_patterns enum_stream = Inr (Some color_enum, enum_stream\<lparr>io_pos := 3\<rparr>)
   \<and> streamInit demo_patterns (enum_stream\<lparr>io_pos := 3\<rparr>) =
       Inr (Some shape_enum, enum_stream\<lparr>io_pos := 5\<rparr>)
   \<and> length (members color_enum) = 2 \<and> length (members shape_enum) = 1
   \<and> drain_enums demo_patterns enum_stream [] = (None, [color_enum, shape_enum])
   \<and> open_stream demo_fs ''doc/group__funcs.html'' = Inr funcs_stream
   \<and> drain_enums demo_patterns funcs_stream [] = (None, [])"
proof -
  obtain sx where sx: "RE_ENUM_NAME demo_patterns (''EColor'' @ nl) = Some sx"
      "sx ''name'' = Some ''Color''" "sx ''link'' = Some ''Color''"
    by (simp add: demo_patterns_def tagged_def rest_of_def nl_def)
  obtain sy where sy: "RE_ENUM_NAME demo_patterns (''EShape'' @ nl) = Some sy"
      "sy ''name'' = Some ''Shape''"
    by (simp add: demo_patterns_def tagged_def rest_of_def nl_def)
  obtain t1 where t1: "RE_ENUM_NAME demo_patterns (''MRed'' @ nl) = None"
      "RE_ENUM_MEMBER demo_patterns (''MRed'' @ nl) = Some t1"
    by (simp add: demo_patterns_def tagged_def nl_def)
  obtain t2 where t2: "RE_ENUM_NAME demo_patterns (''MGreen'' @ nl) = None"
      "RE_ENUM_MEMBER demo_patterns (''MGreen'' @ nl) = Some t2"
    by (simp add: demo_patterns_def tagged_def nl_def)
  obtain t3 where t3: "RE_ENUM_NAME demo_patterns (''MRound'' @ nl) = None"
      "RE_ENUM_MEMBER demo_patterns (''MRound'' @ nl) = Some t3"
    by (simp add: demo_patterns_def tagged_def nl_def)
  have ls: "io_lines enum_stream =
      [''EColor'' @ nl, ''MRed'' @ nl, ''MGreen'' @ nl, ''EShape'' @ nl, ''MRound'' @ nl]"
    by (simp add: enum_stream_def)
  from enumerator_stream_boundary[OF enum_stream_open, THEN conjunct1, rule_format,
      of "''EColor'' @ nl" "''MRed'' @ nl" "''MGreen'' @ nl" "''EShape'' @ nl" "''MRound'' @ nl"
         demo_patterns sx "''Color''" "''Color''" t1 t2 sy "''Shape''" t3 "[]"]
    ls sx sy t1 t2 t3
  obtain e1 e2 f1 f2 f3 where r: "streamInit demo_patterns enum_stream = Inr (Some e1, f1)"
      "streamInit demo_patterns f1 = Inr (Some e2, f2)"
      "drain_enums demo_patterns enum_stream [] = (None, [] @ [e1, e2])"
    by auto
  from r(1) enum_stream_first have e1: "e1 = color_enum" "f1 = enum_stream\<lparr>io_pos := 3\<rparr>" by simp_all
  with r(2) enum_stream_second have e2: "e2 = shape_enum" by simp
  from r(3) e1 e2 have d: "drain_enums demo_patterns enum_stream [] = (None, [color_enum, shape_enum])"
    by simp
  have nm: "\<forall>l \<in> set (io_lines funcs_stream). RE_ENUM_NAME demo_patterns l = None"
    by (simp add: funcs_stream_def demo_patterns_def tagged_def nl_def)
  from enumerator_stream_boundary[OF funcs_stream_open, THEN conjunct2, of demo_patterns "[]"] nm
  have d2: "drain_enums demo_patterns funcs_stream [] = (None, [])" by simp
  have len: "length (members color_enum) = 2" "length (members shape_enum) = 1"
    by (simp_all add: color_enum_def shape_enum_def)
  from d d2 len enum_stream_open funcs_stream_open enum_stream_first enum_stream_second
  show ?thesis by simp
qed

section \<open>Properties of the file categorizer\<close>









section \<open>Properties of the API assembler\<close>

text \<open>
  The assembler only appends to the class level list: what a run finds there stays in
  front of what the run adds.
\<close>

lemma drain_enums_acc:
  "drain_enums ps f acc = (case drain_enums ps f [] of (e, xs) \<Rightarrow> (e, acc @ xs))"
proof (induction "length (io_lines f) - io_pos f" arbitrary: f acc rule: less_induct)
  case less
  show ?case
  proof (cases "streamInit ps f")
    case (Inl e)
    then show ?thesis by (subst (1 2) drain_enums.simps) simp
  next
    case (Inr r)
    obtain curEnum f' where r: "r = (curEnum, f')" by (cases r)
    show ?thesis
    proof (cases curEnum)
      case None
      with Inr r show ?thesis by (subst (1 2) drain_enums.simps) simp
    next
      case (Some en)
      with Inr r have s: "streamInit ps f = Inr (Some en, f')" by simp
      from streamInit_advances[OF s]
      have m: "length (io_lines f') - io_pos f' < length (io_lines f) - io_pos f"
        by (simp add: diff_less_mono2)
      have 1: "drain_enums ps f acc = drain_enums ps f' (acc @ [en])"
        by (subst drain_enums.simps) (simp add: s)
      have 2: "drain_enums ps f [] = drain_enums ps f' [en]"
        by (subst drain_enums.simps) (simp add: s)
      have a: "drain_enums ps f' (acc @ [en]) =
          (case drain_enums ps f' [] of (e, xs) \<Rightarrow> (e, (acc @ [en]) @ xs))"
        by (rule less[OF m])
      have b: "drain_enums ps f' [en] =
          (case drain_enums ps f' [] of (e, xs) \<Rightarrow> (e, [en] @ xs))"
        by (rule less[OF m])
      show ?thesis
        unfolding 1 2 a b by (simp split: prod.splits)
    qed
  qed
qed

lemma enum_files_acc:
  "enum_files fs ps files h = (case enum_files fs ps files [] of (e, xs) \<Rightarrow> (e, h @ xs))"
proof (induction files arbitrary: h)
  case Nil
  then show ?case by simp
next
  case (Cons curFile rest)
  show ?case
  proof (cases "open_stream fs curFile")
    case (Inl e)
    then show ?thesis by simp
  next
    case (Inr st)
    obtain e xs where d: "drain_enums ps st [] = (e, xs)" by (cases "drain_enums ps st []")
    then have dh: "drain_enums ps st h = (e, h @ xs)"
      by (subst drain_enums_acc) simp
    show ?thesis
    proof (cases e)
      case None
      have a: "enum_files fs ps rest (h @ xs) =
          (case enum_files fs ps rest [] of (e, ys) \<Rightarrow> (e, (h @ xs) @ ys))"
        by (rule Cons.IH)
      have b: "enum_files fs ps rest xs =
          (case enum_files fs ps rest [] of (e, ys) \<Rightarrow> (e, xs @ ys))"
        by (rule Cons.IH)
      from None Inr d dh have 1: "enum_files fs ps (curFile # rest) h = enum_files fs ps rest (h @ xs)"
        and 2: "enum_files fs ps (curFile # rest) [] = enum_files fs ps rest xs"
        by simp_all
      show ?thesis
        unfolding 1 2 a b by (simp split: prod.splits)
    next
      case (Some err)
      with Inr d dh show ?thesis by simp
    qed
  qed
qed

lemma AfterbirthApi_init_acc:
  "AfterbirthApi_init fs ps docPath h =
     (case AfterbirthApi_init fs ps docPath [] of (r, xs) \<Rightarrow> (r, h @ xs))"
proof -
  have e: "\<And>files. enum_files fs ps files h =
      (fst (enum_files fs ps files []), h @ snd (enum_files fs ps files []))"
    by (subst enum_files_acc) (simp split: prod.splits)
  show ?thesis
    unfolding AfterbirthApi_init_def
    by (auto simp: e split: sum.splits prod.splits option.splits)
qed

text \<open>The snapshot of the first tree.\<close>

definition demo_api :: AfterbirthApi where
  "demo_api = \<lparr> classes = [demo_class], namespaces = [demo_namespace, funcs_namespace] \<rparr>"

lemma demo_api_first:
  "AfterbirthApi_init demo_fs demo_patterns ''doc'' [] = (Inr demo_api, [color_enum, shape_enum])"
  by code_simp

text \<open>
  Claim C1.  The claim asks that a second run over an unchanged tree yields the
  enumerators of the first.  The classes and the namespaces of the two runs are equal,
  but after a first successful run in a fresh process has left the enumerators \<open>h1\<close>,
  a second run returns a snapshot whose enumerators are \<open>h1 @ h1\<close>, twice as many;
  the first snapshot, which refers to the same list, shows the doubled sequence as well.
\<close>

theorem enumerators_accumulate_across_runs:
  assumes "AfterbirthApi_init fs ps docPath [] = (Inr first, h1)"
  shows "AfterbirthApi_init fs ps docPath h1 = (Inr first, h1 @ h1)
         \<and> enumerators h1 first = h1
         \<and> enumerators (h1 @ h1) first = h1 @ h1
         \<and> length (enumerators (h1 @ h1) first) = 2 * length (enumerators h1 first)"
  using assms
  by (subst AfterbirthApi_init_acc) (simp add: enumerators_def)

theorem enumerators_accumulate_across_runs_witness:
  "AfterbirthApi_init demo_fs demo_patterns ''doc'' [] = (Inr demo_api, [color_enum, shape_enum])
   \<and> AfterbirthApi_init demo_fs demo_patterns ''doc'' [color_enum, shape_enum] =
       (Inr demo_api, [color_enum, shape_enum, color_enum, shape_enum])
   \<and> enumerators [color_enum, shape_enum] demo_api = [color_enum, shape_enum]
   \<and> enumerators [color_enum, shape_enum, color_enum, shape_enum] demo_api =
       [color_enum, shape_enum, color_enum, shape_enum]"
  using enumerators_accumulate_across_runs[OF demo_api_first] demo_api_first
  by simp

end
